theory Spec2Isabelle
  imports Main "HOL-Library.Word"
begin

unbundle bit_operations_syntax

section \<open>JavaScript values used by the module\<close>

type_synonym byte = "8 word"
type_synonym buffer = "byte list"

text \<open>
  The values the public functions can receive: \<^verbatim>\<open>undefined\<close>, \<^verbatim>\<open>null\<close>, booleans,
  (integer-valued) numbers, strings, Buffers and functions (with their arity, which is what
  \<^verbatim>\<open>.length\<close> reads on a function). A string is a list of characters; what its
  characters are as bytes (UTF-8) is left to the platform below.
\<close>

datatype jsval =
    Undefined
  | Null
  | JBool bool
  | JNum int
  | JStr string
  | JBuf buffer
  | JFun nat

datatype error = TypeError string | Error string

text \<open>Truthiness as used by \<^verbatim>\<open>!x\<close>, \<^verbatim>\<open>x || y\<close> and \<^verbatim>\<open>if (x)\<close>.\<close>

fun truthy :: "jsval \<Rightarrow> bool" where
  "truthy Undefined = False"
| "truthy Null = False"
| "truthy (JBool b) = b"
| "truthy (JNum n) = (n \<noteq> 0)"
| "truthy (JStr s) = (s \<noteq> [])"
| "truthy (JBuf b) = True"
| "truthy (JFun n) = True"

definition js_or :: "jsval \<Rightarrow> jsval \<Rightarrow> jsval" where
  "js_or a b = (if truthy a then a else b)"

fun is_function :: "jsval \<Rightarrow> bool" where
  "is_function (JFun n) = True"
| "is_function v = False"

fun is_string :: "jsval \<Rightarrow> bool" where
  "is_string (JStr s) = True"
| "is_string v = False"

text \<open>The \<^verbatim>\<open>.length\<close> property; \<^verbatim>\<open>None\<close> is \<^verbatim>\<open>undefined\<close>.\<close>

fun js_length :: "jsval \<Rightarrow> nat option" where
  "js_length (JStr s) = Some (length s)"
| "js_length (JBuf b) = Some (length b)"
| "js_length (JFun n) = Some n"
| "js_length v = None"

section \<open>String operations\<close>

text \<open>
  \<^verbatim>\<open>s.split(d)\<close> for a one-character separator, read from left to right: \<^verbatim>\<open>cur\<close>
  is the field read so far.
\<close>

fun split_from :: "char \<Rightarrow> string \<Rightarrow> string \<Rightarrow> string list" where
  "split_from d cur [] = [cur]"
| "split_from d cur (c # cs) =
     (if c = d then cur # split_from d [] cs else split_from d (cur @ [c]) cs)"

definition split_on :: "char \<Rightarrow> string \<Rightarrow> string list" where
  "split_on d s = split_from d [] s"

definition split_dollar :: "string \<Rightarrow> string list" where
  "split_dollar s = split_on (CHR ''$'') s"

text \<open>\<^verbatim>\<open>s.lastIndexOf(d)\<close>: the last position of the character, or -1.\<close>

fun last_index_from :: "char \<Rightarrow> string \<Rightarrow> int \<Rightarrow> int \<Rightarrow> int" where
  "last_index_from d [] i found = found"
| "last_index_from d (c # cs) i found =
     last_index_from d cs (i + 1) (if c = d then i else found)"

definition lastIndexOf :: "string \<Rightarrow> char \<Rightarrow> int" where
  "lastIndexOf s d = last_index_from d s 0 (- 1)"

text \<open>\<^verbatim>\<open>s.substr(0, n)\<close>: a length that is not positive gives the empty string.\<close>

definition substr0 :: "string \<Rightarrow> int \<Rightarrow> string" where
  "substr0 s n = (if n \<le> 0 then [] else take (nat n) s)"

text \<open>\<^verbatim>\<open>parts[i]\<close>: reading past the end of an array gives \<^verbatim>\<open>undefined\<close>.\<close>

definition field :: "string list \<Rightarrow> nat \<Rightarrow> string option" where
  "field parts i = (if i < length parts then Some (parts ! i) else None)"

text \<open>\<^verbatim>\<open>xs.indexOf(v)\<close> on an array of numbers (strict equality).\<close>

fun index_from :: "jsval list \<Rightarrow> jsval \<Rightarrow> int \<Rightarrow> int" where
  "index_from [] v i = - 1"
| "index_from (x # xs) v i = (if x = v then i else index_from xs v (i + 1))"

definition indexOf :: "jsval list \<Rightarrow> jsval \<Rightarrow> int" where
  "indexOf xs v = index_from xs v 0"

section \<open>The platform: Node's crypto and Buffer\<close>

text \<open>
  \<^verbatim>\<open>crypto.pbkdf2\<close> either throws while checking its arguments, or later calls back
  with an error, or calls back with the derived key.
\<close>

datatype kdf_outcome = KdfThrows error | KdfFails error | KdfKey buffer

text \<open>
  The primitives of the platform are parameters of the model. A cipher object is the
  function from the bytes written to it to the bytes read from it after \<^verbatim>\<open>end()\<close>
  (which throws, for example on bad padding).
\<close>

record platform =
  crypto_pbkdf2 :: "jsval \<Rightarrow> buffer \<Rightarrow> jsval \<Rightarrow> nat \<Rightarrow> jsval \<Rightarrow> kdf_outcome"
  crypto_createCipheriv :: "jsval \<Rightarrow> buffer \<Rightarrow> buffer \<Rightarrow> error + (buffer \<Rightarrow> error + buffer)"
  crypto_createDecipheriv :: "jsval \<Rightarrow> buffer \<Rightarrow> buffer \<Rightarrow> error + (buffer \<Rightarrow> error + buffer)"
  crypto_hmac :: "jsval \<Rightarrow> jsval \<Rightarrow> buffer \<Rightarrow> error + buffer"
  to_base64 :: "buffer \<Rightarrow> string"
  from_base64 :: "string \<Rightarrow> buffer"
  utf8_encode :: "string \<Rightarrow> buffer"
  utf8_decode :: "buffer \<Rightarrow> string"

text \<open>The calls made to the crypto library, in order.\<close>

datatype event = RandomBytes | Pbkdf2 | Cipher | Decipher | Hmac

text \<open>
  What the caller of \<^verbatim>\<open>encrypt\<close> or \<^verbatim>\<open>decrypt\<close> observes: an exception thrown by
  the call, or the arguments \<^verbatim>\<open>(err, result)\<close> given to the callback.
\<close>

datatype outcome = Thrown error | Callback "error option" jsval

text \<open>\<^verbatim>\<open>new Buffer(x, 'base64')\<close>: throws when \<^verbatim>\<open>x\<close> is \<^verbatim>\<open>undefined\<close>.\<close>

definition new_Buffer_base64 :: "platform \<Rightarrow> string option \<Rightarrow> error + buffer" where
  "new_Buffer_base64 P x =
     (case x of
        None \<Rightarrow> Inl (TypeError ''must start with number, buffer, array or string'')
      | Some s \<Rightarrow> Inr (from_base64 P s))"

text \<open>\<^verbatim>\<open>stream.write(chunk)\<close>: a string is written as UTF-8, a Buffer as it is.\<close>

fun write_chunk :: "platform \<Rightarrow> jsval \<Rightarrow> error + buffer" where
  "write_chunk P (JStr s) = Inr (utf8_encode P s)"
| "write_chunk P (JBuf b) = Inr b"
| "write_chunk P v = Inl (TypeError ''Invalid non-string/buffer chunk'')"

section \<open>The instance\<close>

record options =
  opt_key :: jsval
  opt_hmacKey :: jsval
  opt_algorithm :: jsval
  opt_hmacAlgorithm :: jsval
  opt_iterations :: jsval
  opt_keyLength :: jsval

definition defaultIterations :: jsval where
  "defaultIterations = JNum 131072"

text \<open>
  The private variables of an instance (\<^verbatim>\<open>key\<close>, \<^verbatim>\<open>hmacKey\<close>, \<^verbatim>\<open>iterations\<close>,
  \<^verbatim>\<open>hmacAlgorithm\<close>, \<^verbatim>\<open>keyLength\<close> in bytes) and its \<^verbatim>\<open>algorithm\<close> property.
\<close>

record kripke =
  k_key :: jsval
  k_hmacKey :: jsval
  k_iterations :: jsval
  k_hmacAlgorithm :: jsval
  k_keyLength :: nat
  k_algorithm :: jsval

text \<open>
  The constructor; \<^verbatim>\<open>None\<close> is a call without an options object. The key length is
  divided by 8 only after \<^verbatim>\<open>indexOf\<close> has found it among the numbers 128, 192 and 256,
  so the last case of the division is never reached.
\<close>

definition Kripke :: "options option \<Rightarrow> error + kripke" where
  \<open>Kripke options =
     (case options of
        None \<Rightarrow> Inl (TypeError ''You must provide a "key"'')
      | Some opts \<Rightarrow>
          if \<not> truthy (opt_key opts) then Inl (TypeError ''You must provide a "key"'')
          else Inr \<lparr>
            k_key = opt_key opts,
            k_hmacKey = opt_hmacKey opts,
            k_iterations = js_or (opt_iterations opts) defaultIterations,
            k_hmacAlgorithm = js_or (opt_hmacAlgorithm opts) (JStr ''SHA256''),
            k_keyLength =
              (if truthy (opt_keyLength opts)
                  \<and> indexOf [JNum 128, JNum 192, JNum 256] (opt_keyLength opts) > - 1
               then (case opt_keyLength opts of JNum n \<Rightarrow> nat (n div 8) | _ \<Rightarrow> 32)
               else 32),
            k_algorithm = js_or (opt_algorithm opts) (JStr ''AES-256-CBC'') \<rparr>)\<close>

text \<open>
  \<^verbatim>\<open>generateDerivedKey\<close>: the salt is the Buffer given by the caller, or the 16 random
  bytes drawn when only a callback is given; the outcome of \<^verbatim>\<open>crypto.pbkdf2\<close> is handed
  to the callback together with that salt.
\<close>

definition generateDerivedKey :: "platform \<Rightarrow> kripke \<Rightarrow> buffer \<Rightarrow> kdf_outcome" where
  "generateDerivedKey P K salt =
     crypto_pbkdf2 P (k_key K) salt (k_iterations K) (k_keyLength K) (k_hmacAlgorithm K)"

subsection \<open>compareBuffers\<close>

text \<open>
  The loop of \<^verbatim>\<open>compareBuffers\<close>, with \<^verbatim>\<open>val\<close> a 32-bit integer. Both arguments
  are Buffers at each of its calls, so the first test of the source, which returns false
  when neither argument is a Buffer, is not modelled.
\<close>

function compare_loop :: "buffer \<Rightarrow> buffer \<Rightarrow> nat \<Rightarrow> 32 word \<Rightarrow> 32 word" where
  "compare_loop buffer1 buffer2 i val =
     (if i < length buffer1
      then compare_loop buffer1 buffer2 (i + 1)
             (val OR (ucast (buffer1 ! i) XOR ucast (buffer2 ! i)))
      else val)"
  by pat_completeness auto
termination
  by (relation "measure (\<lambda>(buffer1, buffer2, i, val). length buffer1 - i)") auto

declare compare_loop.simps [simp del]

definition compareBuffers :: "buffer \<Rightarrow> buffer \<Rightarrow> bool" where
  "compareBuffers buffer1 buffer2 =
     (if length buffer1 \<noteq> length buffer2 then False
      else compare_loop buffer1 buffer2 0 0 = 0)"

subsection \<open>sign and verify\<close>

definition sign :: "platform \<Rightarrow> kripke \<Rightarrow> string \<Rightarrow> event list \<times> (error + string)" where
  "sign P K data =
     (if truthy (k_hmacKey K) then
        (case crypto_hmac P (k_hmacAlgorithm K) (k_hmacKey K) (utf8_encode P data) of
           Inl e \<Rightarrow> ([Hmac], Inl e)
         | Inr digest \<Rightarrow> ([Hmac], Inr (data @ ''$'' @ to_base64 P digest)))
      else ([], Inr data))"

definition verify :: "platform \<Rightarrow> kripke \<Rightarrow> string \<Rightarrow> event list \<times> (error + bool)" where
  \<open>verify P K encodedData =
     (let parts = split_dollar encodedData in
      if truthy (k_hmacKey K) \<or> length parts = 4 then
        if \<not> truthy (k_hmacKey K) then
          ([], Inl (TypeError
            ''An "hmacKey" is required to verify the HMAC signature of the cipher text''))
        else if length parts < 4 then
          ([], Inl (TypeError
            ''An "hmacKey" was provided but the cipher text does not include an HMAC signature''))
        else
          (case crypto_hmac P (k_hmacAlgorithm K) (k_hmacKey K)
                  (utf8_encode P (substr0 encodedData (lastIndexOf encodedData (CHR ''$'')))) of
             Inl e \<Rightarrow> ([Hmac], Inl e)
           | Inr digest \<Rightarrow>
               ([Hmac], Inr (compareBuffers digest (from_base64 P (parts ! 3)))))
      else ([], Inr True))\<close>

subsection \<open>The cipher steps\<close>

text \<open>
  \<^verbatim>\<open>createCipheriv\<close>, \<^verbatim>\<open>setEncoding('base64')\<close>, \<^verbatim>\<open>write(plainText)\<close>, \<^verbatim>\<open>end()\<close>,
  \<^verbatim>\<open>read()\<close>: the first step that throws decides the error.
\<close>

definition cipher_base64 ::
  "platform \<Rightarrow> jsval \<Rightarrow> buffer \<Rightarrow> buffer \<Rightarrow> jsval \<Rightarrow> error + string" where
  "cipher_base64 P algorithm derivedKey iv plainText =
     (case crypto_createCipheriv P algorithm derivedKey iv of
        Inl e \<Rightarrow> Inl e
      | Inr cipher \<Rightarrow>
          (case write_chunk P plainText of
             Inl e \<Rightarrow> Inl e
           | Inr bytes \<Rightarrow>
               (case cipher bytes of
                  Inl e \<Rightarrow> Inl e
                | Inr out \<Rightarrow> Inr (to_base64 P out))))"

text \<open>
  \<^verbatim>\<open>createDecipheriv\<close>, \<^verbatim>\<open>setEncoding('utf8')\<close>, \<^verbatim>\<open>write(cipherValues[0], 'base64')\<close>,
  \<^verbatim>\<open>end()\<close>, \<^verbatim>\<open>read()\<close>.
\<close>

definition decipher_utf8 ::
  "platform \<Rightarrow> jsval \<Rightarrow> buffer \<Rightarrow> buffer \<Rightarrow> string \<Rightarrow> error + string" where
  "decipher_utf8 P algorithm derivedKey iv cipherText =
     (case crypto_createDecipheriv P algorithm derivedKey iv of
        Inl e \<Rightarrow> Inl e
      | Inr decipher \<Rightarrow>
          (case decipher (from_base64 P cipherText) of
             Inl e \<Rightarrow> Inl e
           | Inr out \<Rightarrow> Inr (utf8_decode P out)))"

subsection \<open>Instance encrypt and decrypt\<close>

text \<open>
  \<^verbatim>\<open>salt\<close> and \<^verbatim>\<open>iv\<close> are the bytes that the two calls of \<^verbatim>\<open>crypto.randomBytes(16)\<close>
  return. An exception thrown by \<^verbatim>\<open>crypto.pbkdf2\<close> inside \<^verbatim>\<open>generateDerivedKey\<close> is
  not caught here.
\<close>

definition encrypt ::
  "platform \<Rightarrow> kripke \<Rightarrow> buffer \<Rightarrow> buffer \<Rightarrow> jsval \<Rightarrow> jsval \<Rightarrow> event list \<times> outcome" where
  "encrypt P K salt iv plainText callback =
     (if \<not> is_function callback then ([], Thrown (TypeError ''No callback provided''))
      else if \<not> truthy plainText \<or> js_length plainText = Some 0
      then ([], Thrown (TypeError ''Invalid plain text data''))
      else
        (case generateDerivedKey P K salt of
           KdfThrows e \<Rightarrow> ([RandomBytes, Pbkdf2], Thrown e)
         | KdfFails e \<Rightarrow> ([RandomBytes, Pbkdf2], Callback (Some e) Undefined)
         | KdfKey derivedKey \<Rightarrow>
             (case cipher_base64 P (k_algorithm K) derivedKey iv plainText of
                Inl e \<Rightarrow>
                  ([RandomBytes, Pbkdf2, RandomBytes, Cipher], Callback (Some e) Undefined)
              | Inr cipherText \<Rightarrow>
                  (case sign P K (cipherText @ ''$'' @ to_base64 P iv @ ''$'' @ to_base64 P salt) of
                     (evs, Inl e) \<Rightarrow>
                       ([RandomBytes, Pbkdf2, RandomBytes, Cipher] @ evs,
                        Callback (Some e) Undefined)
                   | (evs, Inr encodedData) \<Rightarrow>
                       ([RandomBytes, Pbkdf2, RandomBytes, Cipher] @ evs,
                        Callback None (JStr encodedData))))))"

text \<open>
  In the callback given to \<^verbatim>\<open>generateDerivedKey\<close> the error of the key derivation is
  not used: only \<^verbatim>\<open>innerErr\<close> and \<^verbatim>\<open>decryptedText\<close> reach the caller.
\<close>

definition decrypt ::
  "platform \<Rightarrow> kripke \<Rightarrow> jsval \<Rightarrow> jsval \<Rightarrow> event list \<times> outcome" where
  "decrypt P K encodedText callback =
     (if \<not> is_function callback then ([], Thrown (TypeError ''No callback provided''))
      else if \<not> truthy encodedText \<or> \<not> is_string encodedText
      then ([], Thrown (TypeError ''Invalid cipher text''))
      else
        (case encodedText of
           JStr text \<Rightarrow>
             (let cipherValues = split_dollar text in
              if length cipherValues \<ge> 3 then
                (let iv = from_base64 P (cipherValues ! 1);
                     salt = from_base64 P (cipherValues ! 2)
                 in case verify P K text of
                      (evs, Inl e) \<Rightarrow> (evs, Callback (Some e) Undefined)
                    | (evs, Inr False) \<Rightarrow>
                        (evs, Callback (Some (Error ''HMAC signature verification failed''))
                                Undefined)
                    | (evs, Inr True) \<Rightarrow>
                        (case generateDerivedKey P K salt of
                           KdfThrows e \<Rightarrow> (evs @ [Pbkdf2], Callback (Some e) Undefined)
                         | KdfFails e \<Rightarrow> (evs @ [Pbkdf2], Callback None Undefined)
                         | KdfKey derivedKey \<Rightarrow>
                             (case decipher_utf8 P (k_algorithm K) derivedKey iv
                                     (cipherValues ! 0) of
                                Inl e \<Rightarrow>
                                  (evs @ [Pbkdf2, Decipher], Callback (Some e) Undefined)
                              | Inr decryptedText \<Rightarrow>
                                  (evs @ [Pbkdf2, Decipher],
                                   Callback None (JStr decryptedText)))))
              else ([], Callback (Some (TypeError ''Encoded text is invalid'')) Undefined))
         | _ \<Rightarrow> ([], Thrown (TypeError ''Invalid cipher text''))))"

section \<open>The static functions\<close>

text \<open>Lines 248 to 254 of the static \<^verbatim>\<open>encrypt\<close>: the optional signature.\<close>

definition static_sign ::
  "platform \<Rightarrow> jsval \<Rightarrow> jsval \<Rightarrow> string \<Rightarrow> event list \<times> (error + string)" where
  "static_sign P hmacAlgorithm hmacKey encodedData =
     (if truthy hmacKey then
        (case crypto_hmac P hmacAlgorithm hmacKey (utf8_encode P encodedData) of
           Inl e \<Rightarrow> ([Hmac], Inl e)
         | Inr digest \<Rightarrow> ([Hmac], Inr (encodedData @ ''$'' @ to_base64 P digest)))
      else ([], Inr encodedData))"

text \<open>
  The static \<^verbatim>\<open>encrypt\<close>, called with an options object. The key is always derived
  with a length of 32 bytes, and an exception thrown by \<^verbatim>\<open>crypto.pbkdf2\<close> is caught
  and given to the callback.
\<close>

definition Kripke_encrypt ::
  "platform \<Rightarrow> buffer \<Rightarrow> buffer \<Rightarrow> jsval \<Rightarrow> options \<Rightarrow> jsval \<Rightarrow> event list \<times> outcome" where
  \<open>Kripke_encrypt P salt iv plainText opts callback =
     (if \<not> is_function callback then ([], Thrown (Error ''No callback provided''))
      else if \<not> truthy (opt_key opts) then ([], Thrown (TypeError ''You must provide a "key"''))
      else if \<not> truthy plainText \<or> js_length plainText = Some 0
      then ([], Thrown (TypeError ''Invalid plain text data''))
      else
        (let algorithm = js_or (opt_algorithm opts) (JStr ''AES-256-CBC'');
             hmacAlgorithm = js_or (opt_hmacAlgorithm opts) (JStr ''SHA256'');
             iterations = js_or (opt_iterations opts) defaultIterations
         in case crypto_pbkdf2 P (opt_key opts) salt iterations 32 hmacAlgorithm of
              KdfThrows e \<Rightarrow>
                ([RandomBytes, RandomBytes, Pbkdf2], Callback (Some e) Undefined)
            | KdfFails e \<Rightarrow>
                ([RandomBytes, RandomBytes, Pbkdf2], Callback (Some e) Undefined)
            | KdfKey derivedKey \<Rightarrow>
                (case cipher_base64 P algorithm derivedKey iv plainText of
                   Inl e \<Rightarrow>
                     ([RandomBytes, RandomBytes, Pbkdf2, Cipher], Callback (Some e) Undefined)
                 | Inr cipherText \<Rightarrow>
                     (case static_sign P hmacAlgorithm (opt_hmacKey opts)
                             (cipherText @ ''$'' @ to_base64 P iv @ ''$'' @ to_base64 P salt) of
                        (evs, Inl e) \<Rightarrow>
                          ([RandomBytes, RandomBytes, Pbkdf2, Cipher] @ evs,
                           Callback (Some e) Undefined)
                      | (evs, Inr encodedData) \<Rightarrow>
                          ([RandomBytes, RandomBytes, Pbkdf2, Cipher] @ evs,
                           Callback None (JStr encodedData))))))\<close>

text \<open>
  Lines 304 to 323 of the static \<^verbatim>\<open>decrypt\<close>: the value of \<^verbatim>\<open>err\<close> after the
  verification of the signature.
\<close>

definition static_verify ::
  "platform \<Rightarrow> jsval \<Rightarrow> jsval \<Rightarrow> string \<Rightarrow> string list \<Rightarrow> event list \<times> error option" where
  \<open>static_verify P hmacAlgorithm hmacKey encodedText cipherValues =
     (if truthy hmacKey \<or> length cipherValues = 4 then
        if \<not> truthy hmacKey then
          ([], Some (TypeError
            ''An "hmacKey" is required to verify the HMAC signature of the cipher text''))
        else if length cipherValues < 4 then
          ([], Some (TypeError
            ''An "hmacKey" was provided but the cipher text does not include an HMAC signature''))
        else
          (case crypto_hmac P hmacAlgorithm hmacKey
                  (utf8_encode P (substr0 encodedText (lastIndexOf encodedText (CHR ''$'')))) of
             Inl e \<Rightarrow> ([Hmac], Some e)
           | Inr digest \<Rightarrow>
               (if \<not> compareBuffers digest (from_base64 P (cipherValues ! 3))
                then ([Hmac], Some (Error ''HMAC signature verification failed''))
                else ([Hmac], None)))
      else ([], None))\<close>

text \<open>
  The static \<^verbatim>\<open>decrypt\<close>. The fields 1 and 2 are decoded before the number of fields is
  looked at, and \<^verbatim>\<open>crypto.pbkdf2\<close> is called outside any \<^verbatim>\<open>try\<close>.
\<close>

definition Kripke_decrypt ::
  "platform \<Rightarrow> jsval \<Rightarrow> options \<Rightarrow> jsval \<Rightarrow> event list \<times> outcome" where
  \<open>Kripke_decrypt P encodedText opts callback =
     (if \<not> is_function callback then ([], Thrown (Error ''No callback provided''))
      else if \<not> truthy encodedText \<or> \<not> is_string encodedText
      then ([], Thrown (TypeError ''Invalid cipher text''))
      else if \<not> truthy (opt_key opts) then ([], Thrown (TypeError ''You must provide a "key"''))
      else
        (case encodedText of
           JStr text \<Rightarrow>
             (let algorithm = js_or (opt_algorithm opts) (JStr ''AES-256-CBC'');
                  hmacAlgorithm = js_or (opt_hmacAlgorithm opts) (JStr ''SHA256'');
                  iterations = js_or (opt_iterations opts) defaultIterations;
                  cipherValues = split_dollar text
              in case new_Buffer_base64 P (field cipherValues 1) of
                   Inl e \<Rightarrow> ([], Thrown e)
                 | Inr iv \<Rightarrow>
                     (case new_Buffer_base64 P (field cipherValues 2) of
                        Inl e \<Rightarrow> ([], Thrown e)
                      | Inr salt \<Rightarrow>
                          (case static_verify P hmacAlgorithm (opt_hmacKey opts) text
                                  cipherValues of
                             (evs, Some e) \<Rightarrow> (evs, Callback (Some e) Undefined)
                           | (evs, None) \<Rightarrow>
                               (case crypto_pbkdf2 P (opt_key opts) salt iterations 32
                                       hmacAlgorithm of
                                  KdfThrows e \<Rightarrow> (evs @ [Pbkdf2], Thrown e)
                                | KdfFails e \<Rightarrow> (evs @ [Pbkdf2], Callback (Some e) Undefined)
                                | KdfKey derivedKey \<Rightarrow>
                                    (case decipher_utf8 P algorithm derivedKey iv
                                            (cipherValues ! 0) of
                                       Inl e \<Rightarrow>
                                         (evs @ [Pbkdf2, Decipher],
                                          Callback (Some e) Undefined)
                                     | Inr decipheredText \<Rightarrow>
                                         (evs @ [Pbkdf2, Decipher],
                                          Callback None (JStr decipheredText)))))))
         | _ \<Rightarrow> ([], Thrown (TypeError ''Invalid cipher text''))))\<close>

text \<open>
  The instance that the static functions correspond to: the settings of \<^verbatim>\<open>options\<close>
  with the defaults of the constructor, and the key length of 32 bytes that the static
  functions pass to \<^verbatim>\<open>crypto.pbkdf2\<close>.
\<close>

definition static_instance :: "options \<Rightarrow> kripke" where
  "static_instance opts = \<lparr>
     k_key = opt_key opts,
     k_hmacKey = opt_hmacKey opts,
     k_iterations = js_or (opt_iterations opts) defaultIterations,
     k_hmacAlgorithm = js_or (opt_hmacAlgorithm opts) (JStr ''SHA256''),
     k_keyLength = 32,
     k_algorithm = js_or (opt_algorithm opts) (JStr ''AES-256-CBC'') \<rparr>"

section \<open>Vocabulary of the specification\<close>

text \<open>\<^verbatim>\<open>fields.join(d)\<close>: the fields with the separator between them.\<close>

fun join_on :: "char \<Rightarrow> string list \<Rightarrow> string" where
  "join_on d [] = []"
| "join_on d [f] = f"
| "join_on d (f # g # fs) = f @ d # join_on d (g # fs)"

text \<open>
  What the module expects of the platform: base64 text decodes to the bytes it encodes and
  never contains the delimiter, and a decipher created with the key and IV of a cipher
  recovers what the cipher was given.
\<close>

definition base64_sound :: "platform \<Rightarrow> bool" where
  "base64_sound P \<longleftrightarrow>
     (\<forall>b. from_base64 P (to_base64 P b) = b \<and> CHR ''$'' \<notin> set (to_base64 P b))"

definition cipher_sound :: "platform \<Rightarrow> bool" where
  "cipher_sound P \<longleftrightarrow>
     (\<forall>algorithm key iv cipher bytes out.
        crypto_createCipheriv P algorithm key iv = Inr cipher \<and> cipher bytes = Inr out \<longrightarrow>
        (\<exists>decipher. crypto_createDecipheriv P algorithm key iv = Inr decipher
                    \<and> decipher out = Inr bytes))"

text \<open>The two ways in which an operation ends with an error and without a result.\<close>

fun is_error :: "outcome \<Rightarrow> bool" where
  "is_error (Thrown e) = True"
| "is_error (Callback (Some e) Undefined) = True"
| "is_error other = False"

section \<open>A small platform on which the model can be run\<close>

text \<open>
  A stand-in for the crypto library with the same interface, simple enough that calls
  evaluate: base64 is replaced by two letters per byte, the cipher by an exclusive-or with
  a byte of key and IV followed by one byte of padding, the key derivation and the HMAC by
  checksums. Key sizes and argument checks follow the library.
\<close>

definition hex_chars :: string where
  "hex_chars = ''ABCDEFGHIJKLMNOP''"

fun hex_value :: "string \<Rightarrow> char \<Rightarrow> nat" where
  "hex_value [] c = 0"
| "hex_value (x # xs) c = (if x = c then 0 else Suc (hex_value xs c))"

fun toy_to_base64 :: "buffer \<Rightarrow> string" where
  "toy_to_base64 [] = []"
| "toy_to_base64 (b # bs) =
     hex_chars ! (unat b div 16) # hex_chars ! (unat b mod 16) # toy_to_base64 bs"

fun toy_from_base64 :: "string \<Rightarrow> buffer" where
  "toy_from_base64 (c1 # c2 # cs) =
     of_nat (hex_value hex_chars c1 * 16 + hex_value hex_chars c2) # toy_from_base64 cs"
| "toy_from_base64 cs = []"

definition toy_utf8_encode :: "string \<Rightarrow> buffer" where
  "toy_utf8_encode s = map (\<lambda>c. of_nat (of_char c)) s"

definition toy_utf8_decode :: "buffer \<Rightarrow> string" where
  "toy_utf8_decode b = map (\<lambda>x. char_of (unat x)) b"

fun toy_bytes :: "jsval \<Rightarrow> buffer" where
  "toy_bytes (JStr s) = toy_utf8_encode s"
| "toy_bytes (JBuf b) = b"
| "toy_bytes v = []"

definition toy_pbkdf2 :: "jsval \<Rightarrow> buffer \<Rightarrow> jsval \<Rightarrow> nat \<Rightarrow> jsval \<Rightarrow> kdf_outcome" where
  "toy_pbkdf2 password salt iterations keylen digest =
     (case iterations of
        JNum n \<Rightarrow>
          if n \<le> 0 then KdfThrows (TypeError ''Bad iterations'')
          else if digest \<noteq> JStr ''SHA256'' then KdfThrows (TypeError ''Bad digest name'')
          else KdfKey (replicate keylen (fold (+) (toy_bytes password @ salt) 0))
      | _ \<Rightarrow> KdfThrows (TypeError ''Iterations not a number''))"

definition toy_key_size :: "jsval \<Rightarrow> nat option" where
  "toy_key_size algorithm =
     (if algorithm = JStr ''AES-256-CBC'' then Some 32
      else if algorithm = JStr ''AES-192-CBC'' then Some 24
      else if algorithm = JStr ''AES-128-CBC'' then Some 16
      else None)"

definition toy_createCipheriv ::
  "jsval \<Rightarrow> buffer \<Rightarrow> buffer \<Rightarrow> error + (buffer \<Rightarrow> error + buffer)" where
  "toy_createCipheriv algorithm key iv =
     (case toy_key_size algorithm of
        None \<Rightarrow> Inl (Error ''Unknown cipher'')
      | Some n \<Rightarrow>
          if length key \<noteq> n then Inl (Error ''Invalid key length'')
          else Inr (\<lambda>bytes. Inr (map (\<lambda>x. x XOR fold (XOR) iv (key ! 0)) bytes @ [0])))"

definition toy_createDecipheriv ::
  "jsval \<Rightarrow> buffer \<Rightarrow> buffer \<Rightarrow> error + (buffer \<Rightarrow> error + buffer)" where
  "toy_createDecipheriv algorithm key iv =
     (case toy_key_size algorithm of
        None \<Rightarrow> Inl (Error ''Unknown cipher'')
      | Some n \<Rightarrow>
          if length key \<noteq> n then Inl (Error ''Invalid key length'')
          else Inr (\<lambda>bytes.
                 if bytes = [] then Inl (Error ''wrong final block length'')
                 else Inr (map (\<lambda>x. x XOR fold (XOR) iv (key ! 0)) (butlast bytes))))"

definition toy_hmac :: "jsval \<Rightarrow> jsval \<Rightarrow> buffer \<Rightarrow> error + buffer" where
  "toy_hmac algorithm key bytes =
     (if algorithm \<noteq> JStr ''SHA256'' then Inl (Error ''Unknown message digest'')
      else Inr [fold (+) (toy_bytes key @ bytes) 0])"

definition toy_platform :: platform where
  "toy_platform = \<lparr>
     crypto_pbkdf2 = toy_pbkdf2,
     crypto_createCipheriv = toy_createCipheriv,
     crypto_createDecipheriv = toy_createDecipheriv,
     crypto_hmac = toy_hmac,
     to_base64 = toy_to_base64,
     from_base64 = toy_from_base64,
     utf8_encode = toy_utf8_encode,
     utf8_decode = toy_utf8_decode \<rparr>"

definition plain_options :: options where
  "plain_options = \<lparr> opt_key = JStr ''secret'', opt_hmacKey = Undefined,
     opt_algorithm = Undefined, opt_hmacAlgorithm = Undefined,
     opt_iterations = JNum 10000, opt_keyLength = Undefined \<rparr>"

definition signed_options :: options where
  "signed_options = plain_options \<lparr> opt_hmacKey := JStr ''mac'' \<rparr>"


definition short_key_options :: options where
  "short_key_options = plain_options \<lparr> opt_algorithm := JStr ''AES-128-CBC'',
     opt_keyLength := JNum 128 \<rparr>"

definition short_key_instance :: kripke where
  "short_key_instance = (static_instance short_key_options) \<lparr> k_keyLength := 16 \<rparr>"

definition odd_keyLength_options :: options where
  "odd_keyLength_options = plain_options \<lparr> opt_keyLength := JNum 512 \<rparr>"

definition bad_iterations_options :: options where
  "bad_iterations_options = plain_options \<lparr> opt_iterations := JNum (- 1) \<rparr>"

section \<open>Properties of the string operations\<close>

lemma split_from_not_Nil: "split_from d cur s \<noteq> []"
  by (induction s arbitrary: cur) auto

lemma split_on_not_Nil [simp]: "split_on d s \<noteq> []"
  by (simp add: split_on_def split_from_not_Nil)

lemma split_from_no_sep: "d \<notin> set a \<Longrightarrow> split_from d cur a = [cur @ a]"
  by (induction a arbitrary: cur) auto

lemma split_on_no_sep: "d \<notin> set a \<Longrightarrow> split_on d a = [a]"
  by (simp add: split_on_def split_from_no_sep)

lemma split_from_append:
  "d \<notin> set a \<Longrightarrow> split_from d cur (a @ d # rest) = (cur @ a) # split_from d [] rest"
  by (induction a arbitrary: cur) auto

lemma split_on_append: "d \<notin> set a \<Longrightarrow> split_on d (a @ d # rest) = a # split_on d rest"
  by (simp add: split_on_def split_from_append)

lemma split_from_fields_no_sep:
  "f \<in> set (split_from d cur s) \<Longrightarrow> d \<notin> set cur \<Longrightarrow> d \<notin> set f"
proof (induction s arbitrary: cur)
  case Nil
  then show ?case by simp
next
  case (Cons c cs)
  show ?case
  proof (cases "c = d")
    case True
    with Cons.prems have "f = cur \<or> f \<in> set (split_from d [] cs)" by simp
    then show ?thesis
    proof
      assume "f = cur"
      then show ?thesis using Cons.prems by simp
    next
      assume "f \<in> set (split_from d [] cs)"
      then show ?thesis using Cons.IH[of "[]"] by simp
    qed
  next
    case False
    with Cons.prems have "f \<in> set (split_from d (cur @ [c]) cs)" by simp
    then show ?thesis using Cons.IH[of "cur @ [c]"] Cons.prems False by simp
  qed
qed

lemma split_on_fields_no_sep: "f \<in> set (split_on d s) \<Longrightarrow> d \<notin> set f"
  using split_from_fields_no_sep[of f d "[]" s] by (simp add: split_on_def)

lemma join_on_Cons: "fs \<noteq> [] \<Longrightarrow> join_on d (f # fs) = f @ d # join_on d fs"
  by (cases fs) auto

lemma join_on_split_from: "join_on d (split_from d cur s) = cur @ s"
proof (induction s arbitrary: cur)
  case Nil
  then show ?case by simp
next
  case (Cons c cs)
  then show ?case by (simp add: join_on_Cons split_from_not_Nil)
qed

lemma join_on_split_on: "join_on d (split_on d s) = s"
  by (simp add: split_on_def join_on_split_from)

lemma last_index_from_append:
  "d \<notin> set b \<Longrightarrow> last_index_from d (a @ d # b) i found = i + int (length a)"
proof (induction a arbitrary: i found)
  case Nil
  have "\<And>j f. d \<notin> set b \<Longrightarrow> last_index_from d b j f = f"
    by (induction b) auto
  then show ?case using Nil by simp
next
  case (Cons c a)
  then show ?case by simp
qed

lemma lastIndexOf_append:
  "d \<notin> set b \<Longrightarrow> lastIndexOf (a @ d # b) d = int (length a)"
  by (simp add: lastIndexOf_def last_index_from_append)

lemma substr0_lastIndexOf:
  "d \<notin> set b \<Longrightarrow> substr0 (a @ d # b) (lastIndexOf (a @ d # b) d) = a"
  by (simp add: lastIndexOf_append substr0_def)

lemma join_on_snoc: "fs \<noteq> [] \<Longrightarrow> join_on d (fs @ [f]) = join_on d fs @ d # f"
  by (induction d fs rule: join_on.induct) auto

text \<open>The text before the last separator is the join of all fields but the last.\<close>

lemma substr0_lastIndexOf_split:
  assumes "length (split_on d s) \<ge> 2"
  shows "substr0 s (lastIndexOf s d) = join_on d (butlast (split_on d s))"
proof -
  let ?ps = "split_on d s"
  have ne: "?ps \<noteq> []" by simp
  have bl: "butlast ?ps \<noteq> []" using assms by (cases ?ps rule: rev_cases) auto
  have "join_on d (butlast ?ps @ [last ?ps]) = join_on d (butlast ?ps) @ d # last ?ps"
    by (rule join_on_snoc[OF bl])
  moreover have "butlast ?ps @ [last ?ps] = ?ps" using ne by simp
  ultimately have s: "s = join_on d (butlast ?ps) @ d # last ?ps"
    using join_on_split_on[of d s] by simp
  have "d \<notin> set (last ?ps)"
    using split_on_fields_no_sep[of "last ?ps" d s] ne by simp
  then show ?thesis
    using substr0_lastIndexOf[of d "last ?ps" "join_on d (butlast ?ps)"] s by simp
qed


section \<open>compareBuffers decides equality\<close>

lemma ucast_byte_inject: "((ucast (a::byte) :: 32 word) = ucast b) = (a = b)"
proof
  assume h: "(ucast a :: 32 word) = ucast b"
  have up: "is_up (ucast :: byte \<Rightarrow> 32 word)" by (simp add: is_up)
  from h have "(ucast (ucast a :: 32 word) :: byte) = ucast (ucast b :: 32 word)" by simp
  then show "a = b" by (simp add: ucast_up_ucast_id[OF up])
qed simp

lemma word_xor_eq_0: "((x :: 32 word) XOR y = 0) = (x = y)"
  by (metis xor_self_eq xor.assoc xor.right_neutral)

lemma compare_loop_zero:
  "length b1 = length b2 \<Longrightarrow>
   (compare_loop b1 b2 i val = 0) = (val = 0 \<and> (\<forall>j. i \<le> j \<and> j < length b1 \<longrightarrow> b1 ! j = b2 ! j))"
proof (induction b1 b2 i val rule: compare_loop.induct)
  case (1 buffer1 buffer2 i val)
  show ?case
  proof (cases "i < length buffer1")
    case True
    have "(\<forall>j. i \<le> j \<and> j < length buffer1 \<longrightarrow> buffer1 ! j = buffer2 ! j)
        = (buffer1 ! i = buffer2 ! i \<and> (\<forall>j. i + 1 \<le> j \<and> j < length buffer1 \<longrightarrow> buffer1 ! j = buffer2 ! j))"
      (is "?L = ?R")
    proof
      assume ?L then show ?R using True by auto
    next
      assume r: ?R
      show ?L
      proof (intro allI impI)
        fix j assume "i \<le> j \<and> j < length buffer1"
        then show "buffer1 ! j = buffer2 ! j" using r by (cases "j = i") auto
      qed
    qed
    with True "1.IH"[OF True "1.prems"] show ?thesis
      by (subst compare_loop.simps) (simp add: or_eq_0_iff word_xor_eq_0 ucast_byte_inject)
  next
    case False
    then show ?thesis by (subst compare_loop.simps) auto
  qed
qed

lemma compareBuffers_nth:
  "compareBuffers buffer1 buffer2 \<longleftrightarrow>
     length buffer1 = length buffer2 \<and> (\<forall>i < length buffer1. buffer1 ! i = buffer2 ! i)"
  by (simp add: compareBuffers_def compare_loop_zero)

lemma compareBuffers_eq: "compareBuffers b1 b2 = (b1 = b2)"
  by (auto simp: compareBuffers_nth list_eq_iff_nth_eq)

lemma compareBuffers_refl: "compareBuffers buffer1 buffer1"
  by (simp add: compareBuffers_eq)

text \<open>
  C7: \<^verbatim>\<open>compareBuffers\<close> returns true if and only if the two buffers have the same
  length and the same bytes; in particular a difference in length gives false.
\<close>

theorem compareBuffers_correct:
  "compareBuffers buffer1 buffer2 \<longleftrightarrow> length buffer1 = length buffer2 \<and> buffer1 = buffer2"
  by (auto simp: compareBuffers_nth list_eq_iff_nth_eq)

section \<open>Signing, verification and the two entry styles\<close>

lemma split_dollar_3:
  "CHR ''$'' \<notin> set a \<Longrightarrow> CHR ''$'' \<notin> set b \<Longrightarrow> CHR ''$'' \<notin> set c \<Longrightarrow>
   split_dollar (a @ CHR ''$'' # b @ CHR ''$'' # c) = [a, b, c]"
  by (simp add: split_dollar_def split_on_append split_on_no_sep)

lemma split_dollar_4:
  "CHR ''$'' \<notin> set a \<Longrightarrow> CHR ''$'' \<notin> set b \<Longrightarrow> CHR ''$'' \<notin> set c \<Longrightarrow>
   CHR ''$'' \<notin> set d \<Longrightarrow>
   split_dollar (a @ CHR ''$'' # b @ CHR ''$'' # c @ CHR ''$'' # d) = [a, b, c, d]"
  by (simp add: split_dollar_def split_on_append split_on_no_sep)

lemma signed_prefix:
  "CHR ''$'' \<notin> set d \<Longrightarrow>
   substr0 (body @ CHR ''$'' # d) (lastIndexOf (body @ CHR ''$'' # d) (CHR ''$'')) = body"
  by (rule substr0_lastIndexOf)

text \<open>\<^verbatim>\<open>sign\<close> is the signing step of the static \<^verbatim>\<open>encrypt\<close> with the settings of the instance.\<close>

lemma sign_static_sign:
  "sign P K data = static_sign P (k_hmacAlgorithm K) (k_hmacKey K) data"
  by (simp add: sign_def static_sign_def)

lemma static_verify_verify:
  "static_verify P (k_hmacAlgorithm K) (k_hmacKey K) text (split_dollar text) =
     (case verify P K text of
        (evs, Inl e) \<Rightarrow> (evs, Some e)
      | (evs, Inr ok) \<Rightarrow>
          (evs, if ok then None else Some (Error ''HMAC signature verification failed'')))"
  by (simp add: static_verify_def verify_def Let_def split: sum.splits)

text \<open>What a successful signing step returns.\<close>

lemma static_sign_Inr:
  "static_sign P alg hk body = (evs, Inr tok) \<Longrightarrow>
     (if truthy hk
      then \<exists>digest. crypto_hmac P alg hk (utf8_encode P body) = Inr digest
                    \<and> tok = body @ ''$'' @ to_base64 P digest \<and> evs = [Hmac]
      else tok = body \<and> evs = [])"
  by (auto simp: static_sign_def split: if_splits sum.splits)

text \<open>Verification accepts a token that the signing step produced.\<close>

lemma verify_signed:
  assumes b64: "base64_sound P"
    and body: "body = c @ ''$'' @ to_base64 P iv @ ''$'' @ to_base64 P salt"
    and c: "CHR ''$'' \<notin> set c"
    and sg: "static_sign P (k_hmacAlgorithm K) (k_hmacKey K) body = (evs, Inr tok)"
  shows "snd (verify P K tok) = Inr True"
proof (cases "truthy (k_hmacKey K)")
  case False
  with sg have "tok = body" by (auto simp: static_sign_def)
  then have "split_dollar tok = [c, to_base64 P iv, to_base64 P salt]"
    using b64 body c by (simp add: split_dollar_3 base64_sound_def)
  then show ?thesis using False by (simp add: verify_def)
next
  case True
  with static_sign_Inr[OF sg] obtain digest where
    d: "crypto_hmac P (k_hmacAlgorithm K) (k_hmacKey K) (utf8_encode P body) = Inr digest"
    and tok: "tok = body @ ''$'' @ to_base64 P digest" by auto
  have nd: "CHR ''$'' \<notin> set (to_base64 P digest)"
    using b64 by (simp add: base64_sound_def)
  have sp: "split_dollar tok = [c, to_base64 P iv, to_base64 P salt, to_base64 P digest]"
    using b64 c nd unfolding tok body by (simp add: split_dollar_4 base64_sound_def)
  have pre: "substr0 tok (lastIndexOf tok (CHR ''$'')) = body"
    unfolding tok using signed_prefix[OF nd, of body] by simp
  have dec: "from_base64 P (to_base64 P digest) = digest"
    using b64 by (simp add: base64_sound_def)
  show ?thesis
    using True d by (simp add: verify_def sp pre dec compareBuffers_refl)
qed




lemma encrypt_success:
  assumes "snd (encrypt P K salt iv p cb) = Callback None (JStr tok)"
  shows "\<exists>dk cipher bytes out evs.
     generateDerivedKey P K salt = KdfKey dk
     \<and> crypto_createCipheriv P (k_algorithm K) dk iv = Inr cipher
     \<and> write_chunk P p = Inr bytes \<and> cipher bytes = Inr out
     \<and> static_sign P (k_hmacAlgorithm K) (k_hmacKey K)
          (to_base64 P out @ CHR ''$'' # to_base64 P iv @ CHR ''$'' # to_base64 P salt)
        = (evs, Inr tok)"
  using assms
  by (auto simp: encrypt_def cipher_base64_def sign_static_sign
           split: if_splits kdf_outcome.splits sum.splits prod.splits)

lemma Kripke_encrypt_static_instance:
  assumes "truthy (opt_key opts)"
  shows "(snd (Kripke_encrypt P salt iv p opts cb) = Callback None (JStr tok))
       = (snd (encrypt P (static_instance opts) salt iv p cb) = Callback None (JStr tok))"
  using assms
  by (auto simp: Kripke_encrypt_def encrypt_def generateDerivedKey_def static_instance_def
                 sign_static_sign Let_def
           split: kdf_outcome.splits sum.splits prod.splits)


lemma Kripke_decrypt_static_instance:
  assumes "truthy (opt_key opts)"
  shows "(snd (Kripke_decrypt P tok opts cb) = Callback None (JStr s))
       = (snd (decrypt P (static_instance opts) tok cb) = Callback None (JStr s))"
proof (cases "is_function cb \<and> truthy tok \<and> is_string tok")
  case False
  then show ?thesis
    by (auto simp: Kripke_decrypt_def decrypt_def split: jsval.splits)
next
  case True
  then obtain str where tok: "tok = JStr str" by (cases tok) auto
  let ?K = "static_instance opts"
  have sv: "static_verify P (js_or (opt_hmacAlgorithm opts) (JStr ''SHA256'')) (opt_hmacKey opts)
              str (split_dollar str) =
            (case verify P ?K str of
               (evs, Inl e) \<Rightarrow> (evs, Some e)
             | (evs, Inr ok) \<Rightarrow>
                 (evs, if ok then None else Some (Error ''HMAC signature verification failed'')))"
    using static_verify_verify[of P ?K str] by (simp add: static_instance_def)
  show ?thesis
  proof (cases "length (split_dollar str) \<ge> 3")
    case False
    then show ?thesis using True assms tok
      by (auto simp: Kripke_decrypt_def decrypt_def Let_def field_def new_Buffer_base64_def
               split: sum.splits)
  next
    case long: True
    obtain evs r where v: "verify P ?K str = (evs, r)" by (cases "verify P ?K str")
    show ?thesis using True assms tok long v
      by (auto simp: Kripke_decrypt_def decrypt_def Let_def field_def new_Buffer_base64_def sv
                     generateDerivedKey_def static_instance_def
               split: sum.splits kdf_outcome.splits bool.splits)
  qed
qed

text \<open>Decrypting a token that \<^verbatim>\<open>encrypt\<close> produced.\<close>

lemma decrypt_encrypted:
  assumes b64: "base64_sound P" and ciph: "cipher_sound P"
    and enc: "snd (encrypt P K salt iv p cb) = Callback None (JStr tok)"
    and cb': "is_function cb'"
  shows "\<exists>bytes. write_chunk P p = Inr bytes
            \<and> snd (decrypt P K (JStr tok) cb') = Callback None (JStr (utf8_decode P bytes))"
proof -
  from encrypt_success[OF enc] obtain dk cipher bytes out evs where
    kdf: "generateDerivedKey P K salt = KdfKey dk"
    and cc: "crypto_createCipheriv P (k_algorithm K) dk iv = Inr cipher"
    and wc: "write_chunk P p = Inr bytes" and co: "cipher bytes = Inr out"
    and sg: "static_sign P (k_hmacAlgorithm K) (k_hmacKey K)
          (to_base64 P out @ CHR ''$'' # to_base64 P iv @ CHR ''$'' # to_base64 P salt)
        = (evs, Inr tok)" by blast
  let ?body = "to_base64 P out @ CHR ''$'' # to_base64 P iv @ CHR ''$'' # to_base64 P salt"
  have nd: "\<And>b. CHR ''$'' \<notin> set (to_base64 P b)"
    and rt: "\<And>b. from_base64 P (to_base64 P b) = b"
    using b64 by (simp_all add: base64_sound_def)
  have ver: "snd (verify P K tok) = Inr True"
    using verify_signed[OF b64 _ nd sg] by simp
  have fields: "length (split_dollar tok) \<ge> 3
      \<and> split_dollar tok ! 0 = to_base64 P out
      \<and> split_dollar tok ! 1 = to_base64 P iv
      \<and> split_dollar tok ! 2 = to_base64 P salt"
  proof (cases "truthy (k_hmacKey K)")
    case True
    with static_sign_Inr[OF sg] obtain digest where
      "tok = ?body @ ''$'' @ to_base64 P digest" by auto
    then show ?thesis using nd by (simp add: split_dollar_4)
  next
    case False
    with static_sign_Inr[OF sg] have "tok = ?body" by auto
    then show ?thesis using nd by (simp add: split_dollar_3)
  qed
  from ciph cc co obtain decipher where
    dc: "crypto_createDecipheriv P (k_algorithm K) dk iv = Inr decipher"
    and dout: "decipher out = Inr bytes"
    unfolding cipher_sound_def by blast
  have tne: "tok \<noteq> []" using fields by (auto simp: split_dollar_def split_on_def)
  obtain evs' where v: "verify P K tok = (evs', Inr True)"
    using ver by (cases "verify P K tok") auto
  have "snd (decrypt P K (JStr tok) cb') = Callback None (JStr (utf8_decode P bytes))"
    using cb' tne fields v kdf dc dout
    by (simp add: decrypt_def Let_def rt decipher_utf8_def)
  with wc show ?thesis by blast
qed


section \<open>The small platform meets the expectations\<close>

lemma hex_value_nth:
  "distinct xs \<Longrightarrow> n < length xs \<Longrightarrow> hex_value xs (xs ! n) = n"
proof (induction xs arbitrary: n)
  case Nil
  then show ?case by simp
next
  case (Cons x xs)
  then show ?case by (cases n) auto
qed

lemma hex_chars_props: "distinct hex_chars" "length hex_chars = 16" "CHR ''$'' \<notin> set hex_chars"
  by (simp_all add: hex_chars_def)

lemma unat_byte_div: "unat (b :: byte) div 16 < 16"
proof -
  have "unat b < 256" using unsigned_less[of b, where ?'a = nat] by simp
  then show ?thesis by simp
qed

lemma toy_base64_decode_encode: "toy_from_base64 (toy_to_base64 bs) = bs"
proof (induction bs)
  case Nil
  then show ?case by simp
next
  case (Cons b bs)
  have "hex_value hex_chars (hex_chars ! (unat b div 16)) = unat b div 16"
    using hex_value_nth[of hex_chars "unat b div 16"] unat_byte_div[of b]
    by (simp add: hex_chars_props)
  moreover have "hex_value hex_chars (hex_chars ! (unat b mod 16)) = unat b mod 16"
    using hex_value_nth[of hex_chars "unat b mod 16"] by (simp add: hex_chars_props)
  ultimately show ?case using Cons by simp
qed

lemma toy_base64_no_dollar: "CHR ''$'' \<notin> set (toy_to_base64 bs)"
proof (induction bs)
  case Nil
  then show ?case by simp
next
  case (Cons b bs)
  have "hex_chars ! (unat b div 16) \<in> set hex_chars"
    using unat_byte_div[of b] by (simp add: hex_chars_props)
  moreover have "hex_chars ! (unat b mod 16) \<in> set hex_chars"
    by (simp add: hex_chars_props)
  ultimately show ?case using Cons hex_chars_props(3) by auto
qed

lemma toy_base64_sound: "base64_sound toy_platform"
  by (simp add: base64_sound_def toy_platform_def toy_base64_decode_encode toy_base64_no_dollar)

lemma toy_cipher_sound: "cipher_sound toy_platform"
  by (auto simp: cipher_sound_def toy_platform_def toy_createCipheriv_def
                 toy_createDecipheriv_def o_def xor.assoc
           split: option.splits if_splits)

lemma toy_utf8_decode_encode: "utf8_decode toy_platform (utf8_encode toy_platform s) = s"
  by (simp add: toy_platform_def toy_utf8_encode_def toy_utf8_decode_def o_def unat_of_nat
        map_idI)


text \<open>Equations for running the model on the small platform.\<close>

lemmas toy_defs =
  toy_platform_def toy_pbkdf2_def toy_createCipheriv_def toy_createDecipheriv_def
  toy_key_size_def toy_hmac_def toy_utf8_encode_def toy_utf8_decode_def hex_chars_def
  static_instance_def signed_options_def plain_options_def short_key_options_def
  short_key_instance_def odd_keyLength_options_def
  bad_iterations_options_def defaultIterations_def js_or_def
  char_of_def bit_Suc_0_iff

lemmas model_defs =
  encrypt_def decrypt_def Kripke_encrypt_def Kripke_decrypt_def generateDerivedKey_def
  cipher_base64_def decipher_utf8_def sign_def verify_def static_sign_def static_verify_def
  split_dollar_def split_on_def lastIndexOf_def substr0_def field_def new_Buffer_base64_def
  compareBuffers_eq Let_def

section \<open>C1: the round trip\<close>

lemma Kripke_encrypt_truthy_key:
  "snd (Kripke_encrypt P salt iv p opts cb) = Callback None r \<Longrightarrow> truthy (opt_key opts)"
  by (auto simp: Kripke_encrypt_def split: if_splits)

lemma Kripke_decrypt_encrypted:
  assumes b64: "base64_sound P" and ciph: "cipher_sound P"
    and enc: "snd (Kripke_encrypt P salt iv p opts cb) = Callback None (JStr tok)"
    and cb': "is_function cb'"
  shows "\<exists>bytes. write_chunk P p = Inr bytes
            \<and> snd (Kripke_decrypt P (JStr tok) opts cb') = Callback None (JStr (utf8_decode P bytes))"
proof -
  have k: "truthy (opt_key opts)" by (rule Kripke_encrypt_truthy_key[OF enc])
  have "snd (encrypt P (static_instance opts) salt iv p cb) = Callback None (JStr tok)"
    using enc Kripke_encrypt_static_instance[OF k] by simp
  from decrypt_encrypted[OF b64 ciph this cb'] obtain bytes where
    "write_chunk P p = Inr bytes"
    "snd (decrypt P (static_instance opts) (JStr tok) cb') = Callback None (JStr (utf8_decode P bytes))"
    by blast
  then show ?thesis using Kripke_decrypt_static_instance[OF k] by auto
qed

text \<open>
  C1, as amended: on a platform whose base64 and cipher are sound, decrypting the token that
  a successful \<^verbatim>\<open>encrypt\<close> returned for a string plaintext \<^verbatim>\<open>s\<close> gives back
  exactly \<^verbatim>\<open>s\<close>, provided \<^verbatim>\<open>s\<close> survives UTF-8 encoding and decoding; this holds
  for the instance methods and for the static functions. For a Buffer plaintext the result
  is not the Buffer but the string that its bytes decode to.
\<close>

theorem round_trip:
  assumes "base64_sound P" and "cipher_sound P" and "is_function callback'"
    and "utf8_decode P (utf8_encode P s) = s"
  shows
    "(snd (encrypt P K salt iv (JStr s) callback) = Callback None (JStr tok) \<longrightarrow>
        snd (decrypt P K (JStr tok) callback') = Callback None (JStr s))
   \<and> (snd (Kripke_encrypt P salt iv (JStr s) opts callback) = Callback None (JStr tok) \<longrightarrow>
        snd (Kripke_decrypt P (JStr tok) opts callback') = Callback None (JStr s))
   \<and> (snd (encrypt P K salt iv (JBuf b) callback) = Callback None (JStr tok) \<longrightarrow>
        snd (decrypt P K (JStr tok) callback') = Callback None (JStr (utf8_decode P b)))
   \<and> (snd (Kripke_encrypt P salt iv (JBuf b) opts callback) = Callback None (JStr tok) \<longrightarrow>
        snd (Kripke_decrypt P (JStr tok) opts callback') = Callback None (JStr (utf8_decode P b)))"
proof (intro conjI impI)
  assume "snd (encrypt P K salt iv (JStr s) callback) = Callback None (JStr tok)"
  from decrypt_encrypted[OF assms(1,2) this assms(3)] assms(4)
  show "snd (decrypt P K (JStr tok) callback') = Callback None (JStr s)" by auto
next
  assume "snd (Kripke_encrypt P salt iv (JStr s) opts callback) = Callback None (JStr tok)"
  from Kripke_decrypt_encrypted[OF assms(1,2) this assms(3)] assms(4)
  show "snd (Kripke_decrypt P (JStr tok) opts callback') = Callback None (JStr s)" by auto
next
  assume "snd (encrypt P K salt iv (JBuf b) callback) = Callback None (JStr tok)"
  from decrypt_encrypted[OF assms(1,2) this assms(3)]
  show "snd (decrypt P K (JStr tok) callback') = Callback None (JStr (utf8_decode P b))" by auto
next
  assume "snd (Kripke_encrypt P salt iv (JBuf b) opts callback) = Callback None (JStr tok)"
  from Kripke_decrypt_encrypted[OF assms(1,2) this assms(3)]
  show "snd (Kripke_decrypt P (JStr tok) opts callback') = Callback None (JStr (utf8_decode P b))" by auto
qed

text \<open>The round trip on the small platform, for a string and for a Buffer.\<close>

theorem round_trip_witness:
  "snd (encrypt toy_platform (static_instance signed_options) [1, 2] [3, 4] (JStr ''hi'') (JFun 2))
     = Callback None (JStr ''OGOHAA$ADAE$ABAC$DK'')
   \<and> snd (decrypt toy_platform (static_instance signed_options) (JStr ''OGOHAA$ADAE$ABAC$DK'')
          (JFun 2)) = Callback None (JStr ''hi'')
   \<and> snd (Kripke_encrypt toy_platform [1, 2] [3, 4] (JStr ''hi'') signed_options (JFun 2))
     = Callback None (JStr ''OGOHAA$ADAE$ABAC$DK'')
   \<and> snd (Kripke_decrypt toy_platform (JStr ''OGOHAA$ADAE$ABAC$DK'') signed_options (JFun 2))
     = Callback None (JStr ''hi'')
   \<and> snd (encrypt toy_platform (static_instance signed_options) [1, 2] [3, 4] (JBuf [65]) (JFun 2))
     = Callback None (JStr ''MPAA$ADAE$ABAC$KK'')
   \<and> snd (decrypt toy_platform (static_instance signed_options) (JStr ''MPAA$ADAE$ABAC$KK'')
          (JFun 2)) = Callback None (JStr (utf8_decode toy_platform [65]))
   \<and> snd (Kripke_encrypt toy_platform [1, 2] [3, 4] (JBuf [65]) signed_options (JFun 2))
     = Callback None (JStr ''MPAA$ADAE$ABAC$KK'')
   \<and> snd (Kripke_decrypt toy_platform (JStr ''MPAA$ADAE$ABAC$KK'') signed_options (JFun 2))
     = Callback None (JStr (utf8_decode toy_platform [65]))"
proof -
  have cb: "is_function (JFun 2)" by simp
  have e1: "snd (encrypt toy_platform (static_instance signed_options) [1, 2] [3, 4] (JStr ''hi'')
              (JFun 2)) = Callback None (JStr ''OGOHAA$ADAE$ABAC$DK'')"
    by (simp add: model_defs toy_defs)
  have e2: "snd (Kripke_encrypt toy_platform [1, 2] [3, 4] (JStr ''hi'') signed_options (JFun 2))
     = Callback None (JStr ''OGOHAA$ADAE$ABAC$DK'')"
    by (simp add: model_defs toy_defs)
  have e3: "snd (encrypt toy_platform (static_instance signed_options) [1, 2] [3, 4] (JBuf [65])
              (JFun 2)) = Callback None (JStr ''MPAA$ADAE$ABAC$KK'')"
    by (simp add: model_defs toy_defs)
  have e4: "snd (Kripke_encrypt toy_platform [1, 2] [3, 4] (JBuf [65]) signed_options (JFun 2))
     = Callback None (JStr ''MPAA$ADAE$ABAC$KK'')"
    by (simp add: model_defs toy_defs)
  note rt1 = round_trip[where P = toy_platform and s = "''hi''"
      and K = "static_instance signed_options" and salt = "[1, 2]" and iv = "[3, 4]"
      and callback = "JFun 2" and tok = "''OGOHAA$ADAE$ABAC$DK''" and opts = signed_options
      and b = "[]", OF toy_base64_sound toy_cipher_sound cb toy_utf8_decode_encode]
  note rt2 = round_trip[where P = toy_platform and s = "''hi''"
      and K = "static_instance signed_options" and salt = "[1, 2]" and iv = "[3, 4]"
      and callback = "JFun 2" and tok = "''MPAA$ADAE$ABAC$KK''" and opts = signed_options
      and b = "[65]", OF toy_base64_sound toy_cipher_sound cb toy_utf8_decode_encode]
  show ?thesis using rt1 rt2 e1 e2 e3 e4 by blast
qed

text \<open>
  C1 as stated fails for a Buffer plaintext: the one-byte Buffer 0x41 is encrypted to a
  token, and decrypting that token returns the string "A", which is not the Buffer.
\<close>

theorem round_trip_buffer_counterexample:
  "snd (encrypt toy_platform (static_instance signed_options) [1, 2] [3, 4] (JBuf [65]) (JFun 2))
     = Callback None (JStr ''MPAA$ADAE$ABAC$KK'')
   \<and> snd (decrypt toy_platform (static_instance signed_options) (JStr ''MPAA$ADAE$ABAC$KK'')
          (JFun 2)) = Callback None (JStr ''A'')
   \<and> snd (decrypt toy_platform (static_instance signed_options) (JStr ''MPAA$ADAE$ABAC$KK'')
          (JFun 2)) \<noteq> Callback None (JBuf [65])"
  by (simp add: model_defs toy_defs)

section \<open>C6: the fields of a token\<close>





section \<open>C2: the verification policy\<close>

lemma signed_text_four_fields:
  assumes "length (split_dollar t) = 4"
  shows "substr0 t (lastIndexOf t (CHR ''$'')) = join_on (CHR ''$'') (take 3 (split_dollar t))"
proof -
  have "substr0 t (lastIndexOf t (CHR ''$'')) = join_on (CHR ''$'') (butlast (split_on (CHR ''$'') t))"
    using assms by (intro substr0_lastIndexOf_split) (simp add: split_dollar_def)
  moreover have "butlast (split_dollar t) = take 3 (split_dollar t)"
    using assms by (simp add: butlast_conv_take)
  ultimately show ?thesis by (simp add: split_dollar_def)
qed

lemma signed_text_more_fields:
  assumes "length (split_dollar t) \<ge> 4"
  shows "substr0 t (lastIndexOf t (CHR ''$'')) = join_on (CHR ''$'') (butlast (split_dollar t))"
  using assms unfolding split_dollar_def by (intro substr0_lastIndexOf_split) simp

text \<open>
  C2, as amended: \<^verbatim>\<open>verify\<close> decides by the truthiness of the HMAC key and the number
  of fields. Without a key, a token whose field count is not exactly 4 is accepted
  (this includes tokens of 5 and more fields), and a token of exactly 4 fields raises the
  error that a key is required. With a key, a token of fewer than 4 fields raises the
  error that the signature is missing; a token of exactly 4 fields has the HMAC recomputed
  over its first three joined fields and compared with the decoded 4th field; a longer
  token has the HMAC recomputed over all fields but the last and compared with the 4th.
  The static \<^verbatim>\<open>decrypt\<close> applies the same policy and keeps the error for its callback.
\<close>

theorem verification_policy:
  \<open>(\<not> truthy (k_hmacKey K) \<and> length (split_dollar t) \<noteq> 4 \<longrightarrow>
       verify P K t = ([], Inr True))
   \<and> (\<not> truthy (k_hmacKey K) \<and> length (split_dollar t) = 4 \<longrightarrow>
       verify P K t = ([], Inl (TypeError
         ''An "hmacKey" is required to verify the HMAC signature of the cipher text'')))
   \<and> (truthy (k_hmacKey K) \<and> length (split_dollar t) < 4 \<longrightarrow>
       verify P K t = ([], Inl (TypeError
         ''An "hmacKey" was provided but the cipher text does not include an HMAC signature'')))
   \<and> (truthy (k_hmacKey K) \<and> length (split_dollar t) = 4 \<longrightarrow>
       verify P K t =
         (case crypto_hmac P (k_hmacAlgorithm K) (k_hmacKey K)
                 (utf8_encode P (join_on (CHR ''$'') (take 3 (split_dollar t)))) of
            Inl e \<Rightarrow> ([Hmac], Inl e)
          | Inr digest \<Rightarrow> ([Hmac], Inr (digest = from_base64 P (split_dollar t ! 3)))))
   \<and> (truthy (k_hmacKey K) \<and> length (split_dollar t) > 4 \<longrightarrow>
       verify P K t =
         (case crypto_hmac P (k_hmacAlgorithm K) (k_hmacKey K)
                 (utf8_encode P (join_on (CHR ''$'') (butlast (split_dollar t)))) of
            Inl e \<Rightarrow> ([Hmac], Inl e)
          | Inr digest \<Rightarrow> ([Hmac], Inr (digest = from_base64 P (split_dollar t ! 3)))))
   \<and> static_verify P (k_hmacAlgorithm K) (k_hmacKey K) t (split_dollar t) =
       (case verify P K t of
          (evs, Inl e) \<Rightarrow> (evs, Some e)
        | (evs, Inr ok) \<Rightarrow>
            (evs, if ok then None else Some (Error ''HMAC signature verification failed'')))\<close>
proof (intro conjI impI)
  assume "\<not> truthy (k_hmacKey K) \<and> length (split_dollar t) \<noteq> 4"
  then show "verify P K t = ([], Inr True)" by (simp add: verify_def)
next
  assume "\<not> truthy (k_hmacKey K) \<and> length (split_dollar t) = 4"
  then show \<open>verify P K t = ([], Inl (TypeError
         ''An "hmacKey" is required to verify the HMAC signature of the cipher text''))\<close>
    by (simp add: verify_def)
next
  assume "truthy (k_hmacKey K) \<and> length (split_dollar t) < 4"
  then show \<open>verify P K t = ([], Inl (TypeError
         ''An "hmacKey" was provided but the cipher text does not include an HMAC signature''))\<close>
    by (simp add: verify_def)
next
  assume a: "truthy (k_hmacKey K) \<and> length (split_dollar t) = 4"
  then show "verify P K t =
         (case crypto_hmac P (k_hmacAlgorithm K) (k_hmacKey K)
                 (utf8_encode P (join_on (CHR ''$'') (take 3 (split_dollar t)))) of
            Inl e \<Rightarrow> ([Hmac], Inl e)
          | Inr digest \<Rightarrow> ([Hmac], Inr (digest = from_base64 P (split_dollar t ! 3))))"
    using signed_text_four_fields[of t]
    by (simp add: verify_def compareBuffers_eq split: sum.splits)
next
  assume a: "truthy (k_hmacKey K) \<and> length (split_dollar t) > 4"
  then show "verify P K t =
         (case crypto_hmac P (k_hmacAlgorithm K) (k_hmacKey K)
                 (utf8_encode P (join_on (CHR ''$'') (butlast (split_dollar t)))) of
            Inl e \<Rightarrow> ([Hmac], Inl e)
          | Inr digest \<Rightarrow> ([Hmac], Inr (digest = from_base64 P (split_dollar t ! 3))))"
    using signed_text_more_fields[of t]
    by (simp add: verify_def compareBuffers_eq split: sum.splits)
next
  show "static_verify P (k_hmacAlgorithm K) (k_hmacKey K) t (split_dollar t) =
       (case verify P K t of
          (evs, Inl e) \<Rightarrow> (evs, Some e)
        | (evs, Inr ok) \<Rightarrow>
            (evs, if ok then None else Some (Error ''HMAC signature verification failed'')))"
    by (rule static_verify_verify)
qed

text \<open>Each case of the policy on the small platform.\<close>

theorem verification_policy_witness:
  \<open>verify toy_platform (static_instance plain_options) ''a$b$c'' = ([], Inr True)
   \<and> verify toy_platform (static_instance plain_options) ''a$b$c$d'' = ([], Inl (TypeError
         ''An "hmacKey" is required to verify the HMAC signature of the cipher text''))
   \<and> verify toy_platform (static_instance signed_options) ''a$b$c'' = ([], Inl (TypeError
         ''An "hmacKey" was provided but the cipher text does not include an HMAC signature''))
   \<and> verify toy_platform (static_instance signed_options) ''OGOHAA$ADAE$ABAC$DK''
       = ([Hmac], Inr True)
   \<and> verify toy_platform (static_instance signed_options) ''OGOHAA$ADAE$ABAC$DK$DK''
       = ([Hmac], Inr False)\<close>
proof -
  let ?plain = "static_instance plain_options" and ?signed = "static_instance signed_options"
  have a1: "\<not> truthy (k_hmacKey ?plain) \<and> length (split_dollar ''a$b$c'') \<noteq> 4"
    and a2: "\<not> truthy (k_hmacKey ?plain) \<and> length (split_dollar ''a$b$c$d'') = 4"
    and a3: "truthy (k_hmacKey ?signed) \<and> length (split_dollar ''a$b$c'') < 4"
    and a4: "truthy (k_hmacKey ?signed) \<and> length (split_dollar ''OGOHAA$ADAE$ABAC$DK'') = 4"
    and a5: "truthy (k_hmacKey ?signed) \<and> length (split_dollar ''OGOHAA$ADAE$ABAC$DK$DK'') > 4"
    by (simp_all add: toy_defs split_dollar_def split_on_def)
  from a1 verification_policy[of ?plain "''a$b$c''" toy_platform]
  have c1: "verify toy_platform ?plain ''a$b$c'' = ([], Inr True)" by blast
  from a2 verification_policy[of ?plain "''a$b$c$d''" toy_platform]
  have c2: \<open>verify toy_platform ?plain ''a$b$c$d'' = ([], Inl (TypeError
         ''An "hmacKey" is required to verify the HMAC signature of the cipher text''))\<close>
    by blast
  from a3 verification_policy[of ?signed "''a$b$c''" toy_platform]
  have c3: \<open>verify toy_platform ?signed ''a$b$c'' = ([], Inl (TypeError
         ''An "hmacKey" was provided but the cipher text does not include an HMAC signature''))\<close>
    by blast
  from a4 verification_policy[of ?signed "''OGOHAA$ADAE$ABAC$DK''" toy_platform]
  have "verify toy_platform ?signed ''OGOHAA$ADAE$ABAC$DK'' =
         (case crypto_hmac toy_platform (k_hmacAlgorithm ?signed) (k_hmacKey ?signed)
                 (utf8_encode toy_platform
                   (join_on (CHR ''$'') (take 3 (split_dollar ''OGOHAA$ADAE$ABAC$DK'')))) of
            Inl e \<Rightarrow> ([Hmac], Inl e)
          | Inr digest \<Rightarrow>
              ([Hmac], Inr (digest = from_base64 toy_platform
                                       (split_dollar ''OGOHAA$ADAE$ABAC$DK'' ! 3))))"
    by blast
  then have c4: "verify toy_platform ?signed ''OGOHAA$ADAE$ABAC$DK'' = ([Hmac], Inr True)"
    by (simp add: toy_defs split_dollar_def split_on_def)
  from a5 verification_policy[of ?signed "''OGOHAA$ADAE$ABAC$DK$DK''" toy_platform]
  have "verify toy_platform ?signed ''OGOHAA$ADAE$ABAC$DK$DK'' =
         (case crypto_hmac toy_platform (k_hmacAlgorithm ?signed) (k_hmacKey ?signed)
                 (utf8_encode toy_platform
                   (join_on (CHR ''$'') (butlast (split_dollar ''OGOHAA$ADAE$ABAC$DK$DK'')))) of
            Inl e \<Rightarrow> ([Hmac], Inl e)
          | Inr digest \<Rightarrow>
              ([Hmac], Inr (digest = from_base64 toy_platform
                                       (split_dollar ''OGOHAA$ADAE$ABAC$DK$DK'' ! 3))))"
    by blast
  then have c5: "verify toy_platform ?signed ''OGOHAA$ADAE$ABAC$DK$DK'' = ([Hmac], Inr False)"
    by (simp add: toy_defs split_dollar_def split_on_def)
  from c1 c2 c3 c4 c5 show ?thesis by blast
qed

text \<open>
  C2 as stated fails on a token of five fields when no HMAC key is configured: the token
  carries a 4th field, yet verification returns true and decryption goes ahead.
\<close>

theorem unsigned_five_fields_counterexample:
  "\<not> truthy (k_hmacKey (static_instance plain_options))
   \<and> field (split_dollar ''OGOHAA$ADAE$ABAC$DK$DK'') 3 = Some ''DK''
   \<and> verify toy_platform (static_instance plain_options) ''OGOHAA$ADAE$ABAC$DK$DK''
       = ([], Inr True)
   \<and> decrypt toy_platform (static_instance plain_options) (JStr ''OGOHAA$ADAE$ABAC$DK$DK'')
        (JFun 2) = ([Pbkdf2, Decipher], Callback None (JStr ''hi''))"
  by (simp add: model_defs toy_defs)

section \<open>C3: no decipher step after a failed verification\<close>






section \<open>C5: the number of fields of a token\<close>

lemma split_on_join_on:
  "fs \<noteq> [] \<Longrightarrow> (\<And>f. f \<in> set fs \<Longrightarrow> d \<notin> set f) \<Longrightarrow> split_on d (join_on d fs) = fs"
proof (induction d fs rule: join_on.induct)
  case (1 d)
  then show ?case by simp
next
  case (2 d f)
  then show ?case by (simp add: split_on_no_sep)
next
  case (3 d f g fs)
  then show ?case by (simp add: split_on_append)
qed

lemma split_dollar_first_three:
  assumes "length (split_dollar t) \<ge> 3"
  shows "split_dollar (join_on (CHR ''$'') (take 3 (split_dollar t))) = take 3 (split_dollar t)"
proof -
  have "take 3 (split_dollar t) \<noteq> []" using assms by auto
  moreover have "\<And>f. f \<in> set (take 3 (split_dollar t)) \<Longrightarrow> CHR ''$'' \<notin> set f"
    using split_on_fields_no_sep[of _ "CHR ''$''" t] in_set_takeD[of _ 3 "split_dollar t"]
    by (auto simp: split_dollar_def)
  ultimately show ?thesis
    unfolding split_dollar_def by (intro split_on_join_on) (auto simp: split_dollar_def)
qed

lemma first_three_not_empty:
  assumes "length (split_dollar t) \<ge> 3"
  shows "join_on (CHR ''$'') (take 3 (split_dollar t)) \<noteq> []"
proof
  let ?j = "join_on (CHR ''$'') (take 3 (split_dollar t))"
  assume "?j = []"
  then have "split_dollar ?j = [[]]" by (simp add: split_dollar_def split_on_def)
  then have "length (take 3 (split_dollar t)) = 1"
    using split_dollar_first_three[OF assms] by simp
  then show False using assms by simp
qed

lemma decrypt_long_unsigned:
  assumes n: "length (split_dollar t) > 4" and hk: "\<not> truthy (k_hmacKey K)"
  shows "decrypt P K (JStr t) callback
       = decrypt P K (JStr (join_on (CHR ''$'') (take 3 (split_dollar t)))) callback"
proof -
  let ?j = "join_on (CHR ''$'') (take 3 (split_dollar t))"
  have ge: "length (split_dollar t) \<ge> 3" using n by simp
  have sj: "split_dollar ?j = take 3 (split_dollar t)" by (rule split_dollar_first_three[OF ge])
  have jne: "?j \<noteq> []" by (rule first_three_not_empty[OF ge])
  have tne: "t \<noteq> []" using n by (auto simp: split_dollar_def split_on_def)
  have v1: "verify P K t = ([], Inr True)" using n hk by (simp add: verify_def)
  have v2: "verify P K ?j = ([], Inr True)" using n hk sj by (simp add: verify_def)
  have nths: "take 3 (split_dollar t) ! 0 = split_dollar t ! 0"
    "take 3 (split_dollar t) ! 1 = split_dollar t ! 1"
    "take 3 (split_dollar t) ! 2 = split_dollar t ! 2" by simp_all
  show ?thesis using n tne jne
    by (simp add: decrypt_def Let_def sj v1 v2
             split: kdf_outcome.splits sum.splits)
qed

lemma Kripke_decrypt_long_unsigned:
  assumes n: "length (split_dollar t) > 4" and hk: "\<not> truthy (opt_hmacKey opts)"
  shows "Kripke_decrypt P (JStr t) opts callback
       = Kripke_decrypt P (JStr (join_on (CHR ''$'') (take 3 (split_dollar t)))) opts callback"
proof -
  let ?j = "join_on (CHR ''$'') (take 3 (split_dollar t))"
  have ge: "length (split_dollar t) \<ge> 3" using n by simp
  have sj: "split_dollar ?j = take 3 (split_dollar t)" by (rule split_dollar_first_three[OF ge])
  have jne: "?j \<noteq> []" by (rule first_three_not_empty[OF ge])
  have tne: "t \<noteq> []" using n by (auto simp: split_dollar_def split_on_def)
  have nths: "take 3 (split_dollar t) ! 0 = split_dollar t ! 0"
    "take 3 (split_dollar t) ! 1 = split_dollar t ! 1"
    "take 3 (split_dollar t) ! 2 = split_dollar t ! 2" by simp_all
  have v1: "static_verify P (js_or (opt_hmacAlgorithm opts) (JStr ''SHA256''))
              (opt_hmacKey opts) t (split_dollar t) = ([], None)"
    using n hk by (simp add: static_verify_def)
  have v2: "static_verify P (js_or (opt_hmacAlgorithm opts) (JStr ''SHA256''))
              (opt_hmacKey opts) ?j (take 3 (split_dollar t)) = ([], None)"
    using n hk by (simp add: static_verify_def)
  have f: "field (split_dollar t) (Suc 0) = Some (split_dollar t ! Suc 0)"
    "field (split_dollar t) 2 = Some (split_dollar t ! 2)"
    "field (take 3 (split_dollar t)) (Suc 0) = Some (split_dollar t ! Suc 0)"
    "field (take 3 (split_dollar t)) 2 = Some (split_dollar t ! 2)"
    using n by (simp_all add: field_def)
  show ?thesis using tne jne
    by (simp add: Kripke_decrypt_def Let_def sj v1 v2 f new_Buffer_base64_def
             split: kdf_outcome.splits sum.splits)
qed

text \<open>
  C5, as amended: a token of fewer than 3 fields is rejected with an error before any call
  to the crypto library, by the instance method (through the callback, as the error that
  the encoded text is invalid) and by the static function. A token of more than 4 fields
  is not rejected for its field count: when no HMAC key is configured it is processed
  exactly as the token made of its first three fields.
\<close>

theorem short_token_rejected:
  "(length (split_dollar t) < 3 \<longrightarrow>
      fst (decrypt P K (JStr t) callback) = []
      \<and> is_error (snd (decrypt P K (JStr t) callback))
      \<and> fst (Kripke_decrypt P (JStr t) opts callback) = []
      \<and> is_error (snd (Kripke_decrypt P (JStr t) opts callback)))
   \<and> (length (split_dollar t) < 3 \<and> is_function callback \<and> t \<noteq> [] \<longrightarrow>
      decrypt P K (JStr t) callback
        = ([], Callback (Some (TypeError ''Encoded text is invalid'')) Undefined))
   \<and> (length (split_dollar t) > 4 \<and> \<not> truthy (k_hmacKey K) \<longrightarrow>
      decrypt P K (JStr t) callback
        = decrypt P K (JStr (join_on (CHR ''$'') (take 3 (split_dollar t)))) callback)
   \<and> (length (split_dollar t) > 4 \<and> \<not> truthy (opt_hmacKey opts) \<longrightarrow>
      Kripke_decrypt P (JStr t) opts callback
        = Kripke_decrypt P (JStr (join_on (CHR ''$'') (take 3 (split_dollar t)))) opts callback)"
proof (intro conjI impI)
  assume n: "length (split_dollar t) < 3"
  show "fst (decrypt P K (JStr t) callback) = []"
    using n by (simp add: decrypt_def Let_def)
  show "is_error (snd (decrypt P K (JStr t) callback))"
    using n by (simp add: decrypt_def Let_def)
  have "field (split_dollar t) 1 = None \<or> field (split_dollar t) 2 = None"
    using n by (auto simp: field_def)
  then show "fst (Kripke_decrypt P (JStr t) opts callback) = []"
    by (auto simp: Kripke_decrypt_def Let_def new_Buffer_base64_def split: option.splits)
  show "is_error (snd (Kripke_decrypt P (JStr t) opts callback))"
    using \<open>field (split_dollar t) 1 = None \<or> field (split_dollar t) 2 = None\<close>
    by (auto simp: Kripke_decrypt_def Let_def new_Buffer_base64_def split: option.splits)
next
  assume "length (split_dollar t) < 3 \<and> is_function callback \<and> t \<noteq> []"
  then show "decrypt P K (JStr t) callback
        = ([], Callback (Some (TypeError ''Encoded text is invalid'')) Undefined)"
    by (simp add: decrypt_def Let_def)
next
  assume "length (split_dollar t) > 4 \<and> \<not> truthy (k_hmacKey K)"
  then show "decrypt P K (JStr t) callback
        = decrypt P K (JStr (join_on (CHR ''$'') (take 3 (split_dollar t)))) callback"
    by (intro decrypt_long_unsigned) simp_all
next
  assume "length (split_dollar t) > 4 \<and> \<not> truthy (opt_hmacKey opts)"
  then show "Kripke_decrypt P (JStr t) opts callback
        = Kripke_decrypt P (JStr (join_on (CHR ''$'') (take 3 (split_dollar t)))) opts callback"
    by (intro Kripke_decrypt_long_unsigned) simp_all
qed

text \<open>A token of two fields and a token of five fields on the small platform.\<close>

theorem short_token_rejected_witness:
  "length (split_dollar ''OGOHAA$ADAE'') < 3 \<and> is_function (JFun 2) \<and> ''OGOHAA$ADAE'' \<noteq> []
   \<and> decrypt toy_platform (static_instance plain_options) (JStr ''OGOHAA$ADAE'') (JFun 2)
        = ([], Callback (Some (TypeError ''Encoded text is invalid'')) Undefined)
   \<and> fst (Kripke_decrypt toy_platform (JStr ''OGOHAA$ADAE'') plain_options (JFun 2)) = []
   \<and> is_error (snd (Kripke_decrypt toy_platform (JStr ''OGOHAA$ADAE'') plain_options (JFun 2)))
   \<and> length (split_dollar ''OGOHAA$ADAE$ABAC$x$y'') > 4
   \<and> \<not> truthy (k_hmacKey (static_instance plain_options))
   \<and> \<not> truthy (opt_hmacKey plain_options)
   \<and> decrypt toy_platform (static_instance plain_options) (JStr ''OGOHAA$ADAE$ABAC$x$y'') (JFun 2)
        = decrypt toy_platform (static_instance plain_options) (JStr ''OGOHAA$ADAE$ABAC'') (JFun 2)
   \<and> Kripke_decrypt toy_platform (JStr ''OGOHAA$ADAE$ABAC$x$y'') plain_options (JFun 2)
        = Kripke_decrypt toy_platform (JStr ''OGOHAA$ADAE$ABAC'') plain_options (JFun 2)"
proof -
  have a1: "length (split_dollar ''OGOHAA$ADAE'') < 3 \<and> is_function (JFun 2) \<and> ''OGOHAA$ADAE'' \<noteq> []"
    by (simp add: split_dollar_def split_on_def)
  have a2: "length (split_dollar ''OGOHAA$ADAE$ABAC$x$y'') > 4"
    by (simp add: split_dollar_def split_on_def)
  have a3: "\<not> truthy (k_hmacKey (static_instance plain_options))"
    and a4: "\<not> truthy (opt_hmacKey plain_options)"
    by (simp_all add: toy_defs)
  have j: "join_on (CHR ''$'') (take 3 (split_dollar ''OGOHAA$ADAE$ABAC$x$y'')) = ''OGOHAA$ADAE$ABAC''"
    by (simp add: split_dollar_def split_on_def)
  note s1 = short_token_rejected[of "''OGOHAA$ADAE''" toy_platform "static_instance plain_options"
      "JFun 2" plain_options]
  note s2 = short_token_rejected[of "''OGOHAA$ADAE$ABAC$x$y''" toy_platform
      "static_instance plain_options" "JFun 2" plain_options, unfolded j]
  from s1 s2 a1 a2 a3 a4 show ?thesis by blast
qed

text \<open>
  C5 as stated fails on a token of five fields: with no HMAC key configured, both forms of
  \<^verbatim>\<open>decrypt\<close> derive the key, decipher the first field and return the plaintext.
\<close>

theorem five_fields_decrypted_counterexample:
  "length (split_dollar ''OGOHAA$ADAE$ABAC$x$y'') = 5
   \<and> decrypt toy_platform (static_instance plain_options) (JStr ''OGOHAA$ADAE$ABAC$x$y'') (JFun 2)
        = ([Pbkdf2, Decipher], Callback None (JStr ''hi''))
   \<and> Kripke_decrypt toy_platform (JStr ''OGOHAA$ADAE$ABAC$x$y'') plain_options (JFun 2)
        = ([Pbkdf2, Decipher], Callback None (JStr ''hi''))"
  by (simp add: model_defs toy_defs)

section \<open>C8: empty inputs\<close>

text \<open>
  C8: an empty plaintext (the empty string or an empty Buffer) makes \<^verbatim>\<open>encrypt\<close>, and an
  empty or non-string token makes \<^verbatim>\<open>decrypt\<close>, end with an exception before any call
  to the crypto library, in the instance and in the static form. When the call has a
  callback (and, for the static \<^verbatim>\<open>encrypt\<close>, a key) the exception is the invalid-input
  error, with the message \<^verbatim>\<open>Invalid plain text data\<close> or \<^verbatim>\<open>Invalid cipher text\<close>.
\<close>

theorem empty_input_rejected:
  "((p = JStr [] \<or> p = JBuf []) \<longrightarrow>
      fst (encrypt P K salt iv p callback) = []
      \<and> (\<exists>e. snd (encrypt P K salt iv p callback) = Thrown e)
      \<and> fst (Kripke_encrypt P salt iv p opts callback) = []
      \<and> (\<exists>e. snd (Kripke_encrypt P salt iv p opts callback) = Thrown e))
   \<and> ((p = JStr [] \<or> p = JBuf []) \<and> is_function callback \<longrightarrow>
      encrypt P K salt iv p callback = ([], Thrown (TypeError ''Invalid plain text data'')))
   \<and> ((p = JStr [] \<or> p = JBuf []) \<and> is_function callback \<and> truthy (opt_key opts) \<longrightarrow>
      Kripke_encrypt P salt iv p opts callback
        = ([], Thrown (TypeError ''Invalid plain text data'')))
   \<and> ((tok = JStr [] \<or> \<not> is_string tok) \<longrightarrow>
      fst (decrypt P K tok callback) = []
      \<and> (\<exists>e. snd (decrypt P K tok callback) = Thrown e)
      \<and> fst (Kripke_decrypt P tok opts callback) = []
      \<and> (\<exists>e. snd (Kripke_decrypt P tok opts callback) = Thrown e))
   \<and> ((tok = JStr [] \<or> \<not> is_string tok) \<and> is_function callback \<longrightarrow>
      decrypt P K tok callback = ([], Thrown (TypeError ''Invalid cipher text''))
      \<and> Kripke_decrypt P tok opts callback = ([], Thrown (TypeError ''Invalid cipher text'')))"
  by (auto simp: encrypt_def Kripke_encrypt_def decrypt_def Kripke_decrypt_def
           split: jsval.splits)

text \<open>The four calls with an empty input on the small platform.\<close>

theorem empty_input_rejected_witness:
  "encrypt toy_platform (static_instance plain_options) [1, 2] [3, 4] (JStr []) (JFun 2)
     = ([], Thrown (TypeError ''Invalid plain text data''))
   \<and> Kripke_encrypt toy_platform [1, 2] [3, 4] (JBuf []) plain_options (JFun 2)
     = ([], Thrown (TypeError ''Invalid plain text data''))
   \<and> decrypt toy_platform (static_instance plain_options) (JStr []) (JFun 2)
     = ([], Thrown (TypeError ''Invalid cipher text''))
   \<and> Kripke_decrypt toy_platform (JBuf []) plain_options (JFun 2)
     = ([], Thrown (TypeError ''Invalid cipher text''))"
proof -
  have k: "truthy (opt_key plain_options)" by (simp add: toy_defs)
  have cb: "is_function (JFun 2)" by simp
  have s: "\<not> is_string (JBuf [])" by simp
  note e1 = empty_input_rejected[of "JStr []" toy_platform "static_instance plain_options"
      "[1, 2]" "[3, 4]" "JFun 2" plain_options "JStr []"]
  note e2 = empty_input_rejected[of "JBuf []" toy_platform "static_instance plain_options"
      "[1, 2]" "[3, 4]" "JFun 2" plain_options "JBuf []"]
  from e1 e2 k cb s show ?thesis by blast
qed


section \<open>C9: the default key length\<close>

lemma indexOf_keyLengths:
  "indexOf [JNum 128, JNum 192, JNum 256] v > - 1 \<longleftrightarrow> v \<in> {JNum 128, JNum 192, JNum 256}"
  by (auto simp: indexOf_def)

text \<open>
  C9: when the \<^verbatim>\<open>keyLength\<close> option is not one of the numbers 128, 192 and 256 (it is
  absent, or any other value), the constructor succeeds with a derived-key length of 32
  bytes; the only error of the constructor is the missing key.
\<close>

theorem unsupported_keyLength_defaults:
  assumes "opt_keyLength opts \<notin> {JNum 128, JNum 192, JNum 256}"
  shows \<open>(truthy (opt_key opts) \<longrightarrow>
            (\<exists>K. Kripke (Some opts) = Inr K \<and> k_keyLength K = 32))
       \<and> (\<not> truthy (opt_key opts) \<longrightarrow>
            Kripke (Some opts) = Inl (TypeError ''You must provide a "key"''))\<close>
  using assms by (auto simp: Kripke_def indexOf_keyLengths)

text \<open>The constructor with a key length of 512 bits.\<close>

theorem unsupported_keyLength_defaults_witness:
  "opt_keyLength odd_keyLength_options \<notin> {JNum 128, JNum 192, JNum 256}
   \<and> truthy (opt_key odd_keyLength_options)
   \<and> (\<exists>K. Kripke (Some odd_keyLength_options) = Inr K \<and> k_keyLength K = 32)"
proof -
  have a: "opt_keyLength odd_keyLength_options \<notin> {JNum 128, JNum 192, JNum 256}"
    and k: "truthy (opt_key odd_keyLength_options)"
    by (simp_all add: toy_defs)
  from unsupported_keyLength_defaults[OF a] k a show ?thesis by blast
qed

section \<open>C4: the static functions and the instance\<close>







section \<open>C10: thrown errors and errors given to the callback\<close>

text \<open>
  The failures of argument validation are thrown before any call to the crypto library.
\<close>

lemma validation_errors_are_thrown:
  \<open>(\<not> is_function callback \<longrightarrow>
      encrypt P K salt iv p callback = ([], Thrown (TypeError ''No callback provided''))
      \<and> decrypt P K tok callback = ([], Thrown (TypeError ''No callback provided''))
      \<and> Kripke_encrypt P salt iv p opts callback = ([], Thrown (Error ''No callback provided''))
      \<and> Kripke_decrypt P tok opts callback = ([], Thrown (Error ''No callback provided'')))
   \<and> (is_function callback \<and> \<not> truthy (opt_key opts) \<longrightarrow>
      Kripke_encrypt P salt iv p opts callback
        = ([], Thrown (TypeError ''You must provide a "key"'')))
   \<and> (is_function callback \<and> \<not> truthy (opt_key opts) \<and> truthy tok \<and> is_string tok \<longrightarrow>
      Kripke_decrypt P tok opts callback
        = ([], Thrown (TypeError ''You must provide a "key"'')))\<close>
  by (auto simp: encrypt_def decrypt_def Kripke_encrypt_def Kripke_decrypt_def)

text \<open>
  An error that the key derivation reports to its callback is dropped by the instance
  \<^verbatim>\<open>decrypt\<close>: the caller's callback gets neither an error nor a result.
\<close>

lemma decrypt_drops_kdf_error:
  assumes "is_function callback" and "length (split_dollar t) \<ge> 3"
    and "verify P K t = (evs, Inr True)"
    and "generateDerivedKey P K (from_base64 P (split_dollar t ! 2)) = KdfFails e"
  shows "decrypt P K (JStr t) callback = (evs @ [Pbkdf2], Callback None Undefined)"
proof -
  have "t \<noteq> []" using assms(2) by (auto simp: split_dollar_def split_on_def)
  then show ?thesis using assms by (simp add: decrypt_def Let_def)
qed

text \<open>
  C10: an error of the key derivation is not always delivered through the callback. When
  \<^verbatim>\<open>crypto.pbkdf2\<close> throws while checking its arguments, the instance \<^verbatim>\<open>encrypt\<close> and the
  static \<^verbatim>\<open>decrypt\<close> let the exception escape to the caller, whereas the static
  \<^verbatim>\<open>encrypt\<close> and the instance \<^verbatim>\<open>decrypt\<close> catch it and give it to the callback.
\<close>

theorem kdf_exception_escapes:
  "(is_function callback \<and> truthy p \<and> js_length p \<noteq> Some 0
      \<and> generateDerivedKey P K salt = KdfThrows e \<longrightarrow>
      encrypt P K salt iv p callback = ([RandomBytes, Pbkdf2], Thrown e))
   \<and> (is_function callback \<and> truthy p \<and> js_length p \<noteq> Some 0 \<and> truthy (opt_key opts)
      \<and> generateDerivedKey P (static_instance opts) salt = KdfThrows e \<longrightarrow>
      Kripke_encrypt P salt iv p opts callback
        = ([RandomBytes, RandomBytes, Pbkdf2], Callback (Some e) Undefined))
   \<and> (is_function callback \<and> length (split_dollar t) \<ge> 3
      \<and> verify P K t = (evs, Inr True)
      \<and> generateDerivedKey P K (from_base64 P (split_dollar t ! 2)) = KdfThrows e \<longrightarrow>
      decrypt P K (JStr t) callback = (evs @ [Pbkdf2], Callback (Some e) Undefined))
   \<and> (is_function callback \<and> length (split_dollar t) \<ge> 3 \<and> truthy (opt_key opts)
      \<and> verify P (static_instance opts) t = (evs, Inr True)
      \<and> generateDerivedKey P (static_instance opts) (from_base64 P (split_dollar t ! 2))
          = KdfThrows e \<longrightarrow>
      Kripke_decrypt P (JStr t) opts callback = (evs @ [Pbkdf2], Thrown e))"
proof (intro conjI impI)
  assume "is_function callback \<and> truthy p \<and> js_length p \<noteq> Some 0
      \<and> generateDerivedKey P K salt = KdfThrows e"
  then show "encrypt P K salt iv p callback = ([RandomBytes, Pbkdf2], Thrown e)"
    by (simp add: encrypt_def)
next
  assume "is_function callback \<and> truthy p \<and> js_length p \<noteq> Some 0 \<and> truthy (opt_key opts)
      \<and> generateDerivedKey P (static_instance opts) salt = KdfThrows e"
  then show "Kripke_encrypt P salt iv p opts callback
        = ([RandomBytes, RandomBytes, Pbkdf2], Callback (Some e) Undefined)"
    by (simp add: Kripke_encrypt_def Let_def generateDerivedKey_def static_instance_def)
next
  assume a: "is_function callback \<and> length (split_dollar t) \<ge> 3
      \<and> verify P K t = (evs, Inr True)
      \<and> generateDerivedKey P K (from_base64 P (split_dollar t ! 2)) = KdfThrows e"
  then have "t \<noteq> []" by (auto simp: split_dollar_def split_on_def)
  then show "decrypt P K (JStr t) callback = (evs @ [Pbkdf2], Callback (Some e) Undefined)"
    using a by (simp add: decrypt_def Let_def)
next
  let ?K = "static_instance opts"
  assume a: "is_function callback \<and> length (split_dollar t) \<ge> 3 \<and> truthy (opt_key opts)
      \<and> verify P ?K t = (evs, Inr True)
      \<and> generateDerivedKey P ?K (from_base64 P (split_dollar t ! 2)) = KdfThrows e"
  then have tne: "t \<noteq> []" by (auto simp: split_dollar_def split_on_def)
  have sv: "static_verify P (js_or (opt_hmacAlgorithm opts) (JStr ''SHA256'')) (opt_hmacKey opts)
              t (split_dollar t) = (evs, None)"
    using static_verify_verify[of P ?K t] a by (simp add: static_instance_def)
  have f: "field (split_dollar t) (Suc 0) = Some (split_dollar t ! Suc 0)"
    "field (split_dollar t) 2 = Some (split_dollar t ! 2)"
    using a by (simp_all add: field_def)
  have kdf: "crypto_pbkdf2 P (opt_key opts) (from_base64 P (split_dollar t ! 2))
        (js_or (opt_iterations opts) defaultIterations) 32
        (js_or (opt_hmacAlgorithm opts) (JStr ''SHA256'')) = KdfThrows e"
    using a by (simp add: generateDerivedKey_def static_instance_def)
  show "Kripke_decrypt P (JStr t) opts callback = (evs @ [Pbkdf2], Thrown e)"
    using a tne by (simp add: Kripke_decrypt_def Let_def f sv kdf new_Buffer_base64_def)
qed

text \<open>The four calls with a negative iteration count on the small platform.\<close>

theorem kdf_exception_escapes_witness:
  "Kripke (Some bad_iterations_options) = Inr (static_instance bad_iterations_options)
   \<and> encrypt toy_platform (static_instance bad_iterations_options) [1, 2] [3, 4] (JStr ''hi'')
        (JFun 2) = ([RandomBytes, Pbkdf2], Thrown (TypeError ''Bad iterations''))
   \<and> Kripke_encrypt toy_platform [1, 2] [3, 4] (JStr ''hi'') bad_iterations_options (JFun 2)
       = ([RandomBytes, RandomBytes, Pbkdf2],
          Callback (Some (TypeError ''Bad iterations'')) Undefined)
   \<and> decrypt toy_platform (static_instance bad_iterations_options) (JStr ''OGOHAA$ADAE$ABAC'')
        (JFun 2) = ([Pbkdf2], Callback (Some (TypeError ''Bad iterations'')) Undefined)
   \<and> Kripke_decrypt toy_platform (JStr ''OGOHAA$ADAE$ABAC'') bad_iterations_options (JFun 2)
       = ([Pbkdf2], Thrown (TypeError ''Bad iterations''))"
proof -
  let ?K = "static_instance bad_iterations_options"
  let ?e = "TypeError ''Bad iterations''"
  have c: "Kripke (Some bad_iterations_options) = Inr ?K"
    by (simp add: Kripke_def toy_defs)
  have a1: "is_function (JFun 2) \<and> truthy (JStr ''hi'') \<and> js_length (JStr ''hi'') \<noteq> Some 0
      \<and> truthy (opt_key bad_iterations_options)
      \<and> generateDerivedKey toy_platform ?K [1, 2] = KdfThrows ?e"
    by (simp add: generateDerivedKey_def toy_defs)
  have a2: "is_function (JFun 2) \<and> length (split_dollar ''OGOHAA$ADAE$ABAC'') \<ge> 3
      \<and> truthy (opt_key bad_iterations_options)
      \<and> verify toy_platform ?K ''OGOHAA$ADAE$ABAC'' = ([], Inr True)
      \<and> generateDerivedKey toy_platform ?K
           (from_base64 toy_platform (split_dollar ''OGOHAA$ADAE$ABAC'' ! 2)) = KdfThrows ?e"
    by (simp add: model_defs toy_defs)
  note t = kdf_exception_escapes[of "JFun 2" "JStr ''hi''" toy_platform ?K "[1, 2]" ?e "[3, 4]"
      bad_iterations_options "''OGOHAA$ADAE$ABAC''" "[]"]
  from t a1 a2 c show ?thesis by simp
qed

end
